theory Spec2Isabelle
  imports Complex_Main
begin

section \<open>The bandwidth estimator\<close>

text \<open>
  The class \<open>BandwidthEstimator\<close> keeps two moving averages, a byte counter and a buffer
  of the last low-latency chunk bandwidths.

  A JavaScript \<open>number\<close> is a double. A finite double is modelled as the \<open>real\<close> it
  denotes, and an operation on doubles as the operation on reals followed by the rounding
  of its result to a double. That rounding, \<open>fl\<close>, is a parameter of every function that
  computes: what is proved holds whatever the rounding is, so it holds of the rounding to
  nearest that the program runs with. Comparisons, \<open>Math.min\<close> and \<open>Math.max\<close> do not
  round. \<open>NaN\<close> and the infinities are outside the model: the quotient
  \<open>numberOfBytes * 8000 / durationInMs\<close> is the program's only for a duration that is not
  zero, and no operation overflows. The value \<open>undefined\<close> of a \<open>number|undefined\<close>
  result is \<open>None\<close>.
\<close>

type_synonym rounding = "real \<Rightarrow> real"

subsection \<open>What the class imports\<close>

text \<open>
  The four constants come from \<open>../../config\<close>, which is not part of the sources at hand:
  they are a parameter of every operation.
\<close>

record config =
  ABR_MINIMUM_TOTAL_BYTES :: real
  ABR_MINIMUM_CHUNK_SIZE :: real
  ABR_FAST_EMA :: real
  ABR_SLOW_EMA :: real

text \<open>
  The class \<open>EWMA\<close> comes from \<open>./ewma\<close>, which is not part of the sources either. The
  estimator uses its constructor and two methods only; they are a parameter too, over any
  type \<open>'e\<close> of moving-average states.
\<close>

record 'e EWMA_class =
  EWMA_new :: "real \<Rightarrow> 'e"
  EWMA_addSample :: "real \<Rightarrow> real \<Rightarrow> 'e \<Rightarrow> 'e"
  EWMA_getEstimate :: "'e \<Rightarrow> real"

subsection \<open>The class\<close>

record 'e BandwidthEstimator =
  fastEWMA :: 'e
  slowEWMA :: 'e
  bytesSampled :: real
  lowLatencyMode :: bool
  lowLatencyBandwidthBuffer :: "real list"

definition BandwidthEstimator_new ::
    "config \<Rightarrow> 'e EWMA_class \<Rightarrow> bool \<Rightarrow> 'e BandwidthEstimator" where
  "BandwidthEstimator_new cfg E lowLatency =
     \<lparr> fastEWMA = EWMA_new E (ABR_FAST_EMA cfg),
       slowEWMA = EWMA_new E (ABR_SLOW_EMA cfg),
       bytesSampled = 0,
       lowLatencyMode = lowLatency,
       lowLatencyBandwidthBuffer = [] \<rparr>"

text \<open>
  \<open>reduce((acc, val) => acc + val, 0) / length\<close>, or \<open>undefined\<close> under three entries:
  each sum of the \<open>reduce\<close> is rounded, from the left, and so is the quotient.
\<close>

definition getLowLatencyBandwidth :: "rounding \<Rightarrow> 'e BandwidthEstimator \<Rightarrow> real option" where
  "getLowLatencyBandwidth fl this =
     (if length (lowLatencyBandwidthBuffer this) < 3 then None
      else Some (fl (foldl (\<lambda>acc val. fl (acc + val)) 0 (lowLatencyBandwidthBuffer this)
                     / real (length (lowLatencyBandwidthBuffer this)))))"

text \<open>\<open>push\<close>, then \<open>shift\<close> when more than three entries are held.\<close>

definition pushBandwidth :: "real \<Rightarrow> 'e BandwidthEstimator \<Rightarrow> 'e BandwidthEstimator" where
  "pushBandwidth bandwidth this =
     (let pushed = lowLatencyBandwidthBuffer this @ [bandwidth]
      in this\<lparr> lowLatencyBandwidthBuffer :=
                 (if length pushed > 3 then tl pushed else pushed) \<rparr>)"

text \<open>
  \<open>addSample\<close>: the product \<open>numberOfBytes * 8000\<close> is rounded, then its quotient by the
  duration; \<open>0.8\<close> is the double next to it, and its product with \<open>lastBandwidth\<close> is
  rounded; so are the weight and the new \<open>_bytesSampled\<close>.
\<close>

definition addSample ::
    "config \<Rightarrow> 'e EWMA_class \<Rightarrow> rounding \<Rightarrow> real \<Rightarrow> real \<Rightarrow> bool
       \<Rightarrow> 'e BandwidthEstimator \<Rightarrow> 'e BandwidthEstimator" where
  "addSample cfg E fl durationInMs numberOfBytes isChunk this =
     (let bandwidth = fl (fl (numberOfBytes * 8000) / durationInMs) in
      if isChunk \<and> lowLatencyMode this \<and>
         (case getLowLatencyBandwidth fl this of
            None \<Rightarrow> False
          | Some lastBandwidth \<Rightarrow>
              bandwidth > fl (lastBandwidth * fl 0.8) \<and> bandwidth \<le> lastBandwidth)
      then this
      else
        let this1 = (if isChunk \<and> lowLatencyMode this
                     then pushBandwidth bandwidth this else this) in
        if numberOfBytes < ABR_MINIMUM_CHUNK_SIZE cfg then this1
        else
          let weight = fl (durationInMs / 1000) in
          this1\<lparr> bytesSampled := fl (bytesSampled this1 + numberOfBytes),
                  fastEWMA := EWMA_addSample E weight bandwidth (fastEWMA this1),
                  slowEWMA := EWMA_addSample E weight bandwidth (slowEWMA this1) \<rparr>)"

definition getEstimate ::
    "config \<Rightarrow> 'e EWMA_class \<Rightarrow> rounding \<Rightarrow> bool \<Rightarrow> 'e BandwidthEstimator \<Rightarrow> real option" where
  "getEstimate cfg E fl bandwidthMayBeServerLimited this =
     (let regularEstimate =
            (if bytesSampled this < ABR_MINIMUM_TOTAL_BYTES cfg then None
             else Some (min (EWMA_getEstimate E (fastEWMA this))
                            (EWMA_getEstimate E (slowEWMA this))))
      in if \<not> lowLatencyMode this \<or> \<not> bandwidthMayBeServerLimited then regularEstimate
         else
           (case getLowLatencyBandwidth fl this of
              None \<Rightarrow> regularEstimate
            | Some lowLatencyBandwidthEstimate \<Rightarrow>
                (case regularEstimate of
                   None \<Rightarrow> Some lowLatencyBandwidthEstimate
                 | Some regular \<Rightarrow> Some (max lowLatencyBandwidthEstimate regular))))"

definition reset :: "config \<Rightarrow> 'e EWMA_class \<Rightarrow> 'e BandwidthEstimator \<Rightarrow> 'e BandwidthEstimator" where
  "reset cfg E this =
     this\<lparr> fastEWMA := EWMA_new E (ABR_FAST_EMA cfg),
           slowEWMA := EWMA_new E (ABR_SLOW_EMA cfg),
           bytesSampled := 0 \<rparr>"

subsection \<open>Sequences of calls\<close>

text \<open>
  A sample as the metrics bus delivers it, and the estimator after a list of them, oldest
  first.
\<close>

record sample =
  sample_durationMs :: real
  sample_bytes :: real
  sample_isChunk :: bool

definition addSamples ::
    "config \<Rightarrow> 'e EWMA_class \<Rightarrow> rounding \<Rightarrow> sample list
       \<Rightarrow> 'e BandwidthEstimator \<Rightarrow> 'e BandwidthEstimator" where
  "addSamples cfg E fl samples this =
     foldl (\<lambda>est s. addSample cfg E fl (sample_durationMs s) (sample_bytes s) (sample_isChunk s) est)
       this samples"

subsection \<open>The estimate as the specification words it\<close>

text \<open>
  \<open>regular\<close> is undefined under \<open>minTotalBytes\<close> and the smaller of the two averages
  otherwise; \<open>lowLat\<close> is the mean of the ring when the ring holds 3 entries; the result is
  \<open>regular\<close> when low-latency mode is off or the flag is false, and otherwise the larger of
  the two when both are defined, the defined one when one is, undefined when none is.
  The mean of the ring is the one doubles give: the entries summed from the left, the sum
  divided by their number.
\<close>

definition ring_mean :: "rounding \<Rightarrow> real list \<Rightarrow> real" where
  "ring_mean fl ring = fl (foldl (\<lambda>acc val. fl (acc + val)) 0 ring / real (length ring))"

definition getEstimate_spec ::
    "config \<Rightarrow> 'e EWMA_class \<Rightarrow> rounding \<Rightarrow> bool \<Rightarrow> 'e BandwidthEstimator \<Rightarrow> real option" where
  "getEstimate_spec cfg E fl serverMayLimit this =
     (let regular =
            (if bytesSampled this < ABR_MINIMUM_TOTAL_BYTES cfg then None
             else Some (min (EWMA_getEstimate E (fastEWMA this))
                            (EWMA_getEstimate E (slowEWMA this))));
          lowLat =
            (if length (lowLatencyBandwidthBuffer this) = 3
             then Some (ring_mean fl (lowLatencyBandwidthBuffer this)) else None)
      in if \<not> lowLatencyMode this \<or> \<not> serverMayLimit then regular
         else
           (case (regular, lowLat) of
              (Some r, Some l) \<Rightarrow> Some (max r l)
            | (Some r, None) \<Rightarrow> Some r
            | (None, Some l) \<Rightarrow> Some l
            | (None, None) \<Rightarrow> None))"

subsection \<open>A moving average and a configuration to run the estimator on\<close>

text \<open>
  Modelled from the spec: the class \<open>EWMA\<close> of \<open>./ewma\<close>, which is not part of the sources.
  Its state is \<open>(alpha, totalWeight, weightedSum)\<close>; \<open>addSample(weight, value)\<close> adds the
  weight to \<open>totalWeight\<close> and sets \<open>weightedSum\<close> to
  \<open>adjAlpha * weightedSum + (1 - adjAlpha) * value\<close> with \<open>adjAlpha = alpha ^ weight\<close>;
  \<open>getEstimate()\<close> is \<open>weightedSum / (1 - alpha ^ totalWeight)\<close>, which means nothing before
  the first sample. The configured option is taken as \<open>alpha\<close>, as the option table has it.
\<close>

record EWMA =
  alpha :: real
  totalWeight :: real
  weightedSum :: real

definition spec_EWMA :: "EWMA EWMA_class" where
  "spec_EWMA =
     \<lparr> EWMA_new = (\<lambda>a. \<lparr> alpha = a, totalWeight = 0, weightedSum = 0 \<rparr>),
       EWMA_addSample = (\<lambda>weight val e.
          let adjAlpha = alpha e powr weight
          in e\<lparr> totalWeight := totalWeight e + weight,
                weightedSum := adjAlpha * weightedSum e + (1 - adjAlpha) * val \<rparr>),
       EWMA_getEstimate = (\<lambda>e. weightedSum e / (1 - alpha e powr totalWeight e)) \<rparr>"

text \<open>
  A configuration for the concrete runs below: 150000 bytes before the first estimate,
  samples under 16000 bytes left out of the averages.
\<close>

definition run_config :: config where
  "run_config =
     \<lparr> ABR_MINIMUM_TOTAL_BYTES = 150000, ABR_MINIMUM_CHUNK_SIZE = 16000,
       ABR_FAST_EMA = 0.7, ABR_SLOW_EMA = 0.93 \<rparr>"

text \<open>
  The rounding of the concrete runs below. Every product, quotient and sum of those runs
  is an integer a double holds as it is (the largest is 5000000000), and the one product by
  \<open>0.8\<close>, of 4000000, is 3200000 in doubles too: rounding to nearest changes none of them.
\<close>

definition no_rounding :: rounding where
  "no_rounding x = x"

text \<open>
  Inputs of the runs: an estimator in low-latency mode whose ring holds three chunks of
  4 Mbps, one whose ring holds three chunks of 0 bps, and a chunk of 1000 bytes received in
  100 ms (80 kbps).
\<close>

definition full_ring_estimator :: "EWMA BandwidthEstimator" where
  "full_ring_estimator =
     (BandwidthEstimator_new run_config spec_EWMA True)
       \<lparr> lowLatencyBandwidthBuffer := [4000000, 4000000, 4000000] \<rparr>"

definition zero_ring_estimator :: "EWMA BandwidthEstimator" where
  "zero_ring_estimator =
     (BandwidthEstimator_new run_config spec_EWMA True)
       \<lparr> lowLatencyBandwidthBuffer := [0, 0, 0] \<rparr>"

definition small_chunk :: sample where
  "small_chunk = \<lparr> sample_durationMs = 100, sample_bytes = 1000, sample_isChunk = True \<rparr>"

section \<open>The player\<close>

text \<open>
  The class \<open>Player\<close> is modelled as a record of its fields, and each method as a function
  from the player before the call to the player after it. Isabelle names cannot start with
  an underscore or hold a dollar sign, so \<open>_manifest\<close> is \<open>manifest\<close>, \<open>_stream$\<close> is
  \<open>stream\<close> and \<open>_onStreamNext\<close> is \<open>onStreamNext\<close>.

  What a method does to the objects around the player (an event given to the listeners with
  \<open>trigger\<close>, a value sent on a subject, a subscription closed) is appended to the field
  \<open>trace\<close>, in the order of the source. Listeners and subscribers are not run: a listener
  that calls back into the player in the middle of a method is outside the model, and so
  is the scheduling of the observables. Calls to \<open>log\<close> and \<open>warnOnce\<close> are left out.

  A method that throws returns \<open>Inl (error, player)\<close>, with the player as the assignments
  made before the \<open>throw\<close> left it; a method that completes returns \<open>Inr player\<close>. A field
  set to \<open>null\<close> or still \<open>undefined\<close> is \<open>None\<close>, and calling a method on it is a
  \<open>TypeError\<close>.
\<close>

subsection \<open>Values the player handles\<close>

datatype player_state =
    PLAYER_STOPPED | PLAYER_LOADED | PLAYER_LOADING | PLAYER_PLAYING
  | PLAYER_PAUSED | PLAYER_ENDED | PLAYER_BUFFERING | PLAYER_SEEKING

datatype js_error = TypeError | AssertionError string

text \<open>
  Objects made elsewhere, of which the player reads little or nothing. A bitrate is an
  \<open>int\<close>: the source uses \<open>-1\<close> for "no bitrate", and \<open>Infinity\<close> is outside the model.
\<close>

datatype object = Object
datatype manifest = Manifest (manifest_url: string) (isLive: bool)
datatype language_manager = LanguageManager nat
datatype stream_error = StreamError (error_code: string)
datatype segment = Segment nat
datatype image_data = ImageData nat
datatype timings = Timings nat

record adaptation =
  availableBitrates :: "int list"

record representation =
  bitrate :: int

record time_fragment =
  fragment_start :: "real option"
  fragment_end :: "real option"

text \<open>
  What \<open>parseLoadVideoOptions\<close> returns, as far as \<open>loadVideo\<close> reads it itself; the other
  options go to the stream as they are.
\<close>

record parsed_options =
  opt_url :: string
  opt_timeFragment :: time_fragment
  opt_autoPlay :: bool

text \<open>
  The objects \<open>{ type, value }\<close> the stream emits, one constructor for each \<open>type\<close> the
  \<open>switch\<close> of \<open>_onStreamNext\<close> knows, with the fields of \<open>value\<close> the handlers read
  (for "buffer": \<open>bufferType\<close>, \<open>adaptation\<close>, \<open>representation\<close>; for "pipeline":
  \<open>bufferType\<close>, \<open>segment\<close>, \<open>parsed.segmentData\<close>), and one for every other type
  ("loaded", "stalled", ...), which holds the type.
\<close>

datatype stream_infos =
    Buffer_infos string "adaptation option" "representation option"
  | Manifest_infos manifest language_manager
  | ManifestUpdate_infos manifest
  | Pipeline_infos string segment image_data
  | Other_infos string

text \<open>What is sent on \<open>_stream$\<close>: the stream's own object, or one the player builds.\<close>

datatype bus_message =
    Infos stream_infos
  | Warning_message stream_error
  | Error_message stream_error
  | Ended_message

datatype payload =
    Player_state player_state
  | Bitrate int
  | Error_value stream_error
  | Manifest_value manifest
  | Segment_value segment
  | Image_track image_data
  | Empty_timings
  | Position_data timings manifest
  | Timings_value timings

text \<open>
  The effects, \<open>'abr\<close> being the type of the ABR manager's state: \<open>Stream_create\<close> is the
  call \<open>Stream({ ..., adaptive, ... })\<close> with the options and the manager it is given.
\<close>

datatype 'abr effect =
    Trigger string payload
  | ClearLoaded_next
  | ClearLoaded_complete
  | Stream_next bus_message
  | ImageTrack_next "image_data option"
  | Playing_next bool
  | Unsubscribe string
  | Eme_dispose
  | Language_subscriptions language_manager
  | Create_pipelines
  | Stream_create parsed_options "'abr option"
  | Stream_connect

subsection \<open>The fields\<close>

text \<open>
  \<open>state\<close> is \<open>undefined\<close> until the constructor sets it. The fields \<open>_imageTrack$\<close> and
  \<open>_playing$\<close> are set once and never to \<open>null\<close>: sending on them cannot fail, and they
  need no field here. \<open>adaptive\<close> is read by three setters and assigned nowhere in the
  class.
\<close>

record 'abr Player =
  state :: "player_state option"
  manifest :: "manifest option"
  languageManager :: "language_manager option"
  currentRepresentations :: "string \<Rightarrow> representation option"
  currentAdaptations :: "string \<Rightarrow> adaptation option"
  recordedEvents :: "string \<rightharpoonup> int"
  timeFragment :: time_fragment
  fatalError :: "stream_error option"
  currentImagePlaylist :: "image_data option"
  clearLoaded :: "object option"
  metrics :: "object option"
  abrManager :: "'abr option"
  fullscreen :: "object option"
  stream :: "object option"
  errorStream :: "object option"
  createPipelines :: "object option"
  videoElement :: "object option"
  adaptive :: "object option"
  trace :: "'abr effect list"

type_synonym 'abr outcome = "(js_error \<times> 'abr Player) + 'abr Player"

text \<open>The rest of a method after a call that may have thrown.\<close>

definition and_then ::
    "'abr outcome \<Rightarrow> ('abr Player \<Rightarrow> 'abr outcome) \<Rightarrow> 'abr outcome" where
  "and_then r f = (case r of Inl thrown \<Rightarrow> Inl thrown | Inr p \<Rightarrow> f p)"

definition throws :: "'abr outcome \<Rightarrow> bool" where
  "throws r = (case r of Inl thrown \<Rightarrow> True | Inr p \<Rightarrow> False)"

text \<open>The player a call leaves, whether it has thrown or not.\<close>

definition outcome_player :: "'abr outcome \<Rightarrow> 'abr Player" where
  "outcome_player r = (case r of Inl (e, p) \<Rightarrow> p | Inr p \<Rightarrow> p)"

definition emit :: "'abr effect \<Rightarrow> 'abr Player \<Rightarrow> 'abr Player" where
  "emit e this = this\<lparr> trace := trace this @ [e] \<rparr>"

definition trigger :: "string \<Rightarrow> payload \<Rightarrow> 'abr Player \<Rightarrow> 'abr Player" where
  "trigger evt arg this = emit (Trigger evt arg) this"

text \<open>The effects of a step from \<open>this\<close> to \<open>p\<close>, and the messages sent on \<open>_stream$\<close> among them.\<close>

definition emitted :: "'abr Player \<Rightarrow> 'abr Player \<Rightarrow> 'abr effect list" where
  "emitted this p = drop (length (trace this)) (trace p)"

fun forwarded :: "'abr effect list \<Rightarrow> bus_message list" where
  "forwarded [] = []"
| "forwarded (Stream_next msg # effs) = msg # forwarded effs"
| "forwarded (e # effs) = forwarded effs"

text \<open>The values a change event of the given name was triggered with.\<close>

fun triggered :: "string \<Rightarrow> 'abr effect list \<Rightarrow> payload list" where
  "triggered evt [] = []"
| "triggered evt (Trigger name arg # effs) =
     (if name = evt then arg # triggered evt effs else triggered evt effs)"
| "triggered evt (e # effs) = triggered evt effs"

subsection \<open>The ABR manager\<close>

text \<open>
  \<open>_abrManager\<close> is made by \<open>Adaptive\<close> of \<open>../adaptive\<close>, which is not part of the sources.
  The setters the player calls on it are a parameter, over any type \<open>'abr\<close> of manager
  states.
\<close>

record 'abr Adaptive_class =
  Adaptive_setVideoBitrate :: "int \<Rightarrow> 'abr \<Rightarrow> 'abr"
  Adaptive_setAudioBitrate :: "int \<Rightarrow> 'abr \<Rightarrow> 'abr"
  Adaptive_setVideoMaxBitrate :: "int \<Rightarrow> 'abr \<Rightarrow> 'abr"
  Adaptive_setAudioMaxBitrate :: "int \<Rightarrow> 'abr \<Rightarrow> 'abr"

subsection \<open>Content state, player state, stop and dispose\<close>

definition resetContentState :: "'abr Player \<Rightarrow> 'abr Player" where
  "resetContentState this =
     (emit (ImageTrack_next None)
        (this\<lparr> manifest := None,
                languageManager := None,
                currentRepresentations := (\<lambda>bufferType. None),
                currentAdaptations := (\<lambda>bufferType. None),
                recordedEvents := Map.empty,
                timeFragment := \<lparr> fragment_start = None, fragment_end = None \<rparr>,
                fatalError := None \<rparr>))
       \<lparr> currentImagePlaylist := None \<rparr>"

definition setPlayerState :: "player_state \<Rightarrow> 'abr Player \<Rightarrow> 'abr Player" where
  "setPlayerState s this =
     (if state this \<noteq> Some s
      then trigger ''playerStateChange'' (Player_state s) (this\<lparr> state := Some s \<rparr>)
      else this)"

definition stop :: "'abr Player \<Rightarrow> 'abr outcome" where
  "stop this =
     (if state this \<noteq> Some PLAYER_STOPPED then
        (let p = resetContentState this in
         case clearLoaded p of
           None \<Rightarrow> Inl (TypeError, p)
         | Some subject \<Rightarrow> Inr (setPlayerState PLAYER_STOPPED (emit ClearLoaded_next p)))
      else Inr this)"

definition dispose :: "'abr Player \<Rightarrow> 'abr outcome" where
  "dispose this =
     and_then (stop this) (\<lambda>p.
       if clearLoaded p = None then Inl (TypeError, p)
       else let p = emit ClearLoaded_complete p in
       if metrics p = None then Inl (TypeError, p)
       else let p = emit (Unsubscribe ''_metrics'') p in
       if abrManager p = None then Inl (TypeError, p)
       else let p = emit (Unsubscribe ''_abrManager'') p in
       if fullscreen p = None then Inl (TypeError, p)
       else let p = emit (Unsubscribe ''_fullscreen$'') p in
       if stream p = None then Inl (TypeError, p)
       else let p = emit (Unsubscribe ''_stream$'') p in
       if errorStream p = None then Inl (TypeError, p)
       else let p = emit (Unsubscribe ''_errorStream'') p in
       let p = emit Eme_dispose p in
       Inr (p\<lparr> clearLoaded := None,
                metrics := None,
                abrManager := None,
                fullscreen := None,
                stream := None,
                errorStream := None,
                createPipelines := None,
                videoElement := None \<rparr>))"

text \<open>
  The constructor, given the manager \<open>Adaptive(...)\<close> returns: the subjects and the
  pipelines are made, then \<open>_setPlayerState(PLAYER_STOPPED)\<close> and \<open>_resetContentState()\<close>.
\<close>

definition Player_new :: "'abr \<Rightarrow> 'abr Player" where
  "Player_new manager =
     resetContentState (setPlayerState PLAYER_STOPPED
       \<lparr> state = None,
         manifest = None,
         languageManager = None,
         currentRepresentations = (\<lambda>bufferType. None),
         currentAdaptations = (\<lambda>bufferType. None),
         recordedEvents = Map.empty,
         timeFragment = \<lparr> fragment_start = None, fragment_end = None \<rparr>,
         fatalError = None,
         currentImagePlaylist = None,
         clearLoaded = Some Object,
         metrics = Some Object,
         abrManager = Some manager,
         fullscreen = Some Object,
         stream = Some Object,
         errorStream = Some Object,
         createPipelines = Some Object,
         videoElement = Some Object,
         adaptive = None,
         trace = [] \<rparr>)"

text \<open>No field that \<open>dispose\<close> sets to \<open>null\<close> is \<open>null\<close>.\<close>

definition notDisposed :: "'abr Player \<Rightarrow> bool" where
  "notDisposed this =
     (clearLoaded this \<noteq> None \<and> metrics this \<noteq> None \<and> abrManager this \<noteq> None \<and>
      fullscreen this \<noteq> None \<and> stream this \<noteq> None \<and> errorStream this \<noteq> None \<and>
      createPipelines this \<noteq> None \<and> videoElement this \<noteq> None)"

subsection \<open>Recorded states and the handlers of the stream\<close>

definition recordState :: "string \<Rightarrow> int \<Rightarrow> 'abr Player \<Rightarrow> 'abr Player" where
  "recordState type val this =
     (let prev = recordedEvents this type in
      if prev \<noteq> Some val
      then trigger (type @ ''Change'') (Bitrate val)
             (this\<lparr> recordedEvents := (recordedEvents this)(type \<mapsto> val) \<rparr>)
      else this)"

text \<open>\<open>representation && representation.bitrate || -1\<close>\<close>

definition bitrateOf :: "representation option \<Rightarrow> int" where
  "bitrateOf r =
     (case r of None \<Rightarrow> - 1 | Some rep \<Rightarrow> if bitrate rep = 0 then - 1 else bitrate rep)"

definition onBufferNext ::
    "string \<Rightarrow> adaptation option \<Rightarrow> representation option \<Rightarrow> 'abr Player \<Rightarrow> 'abr Player" where
  "onBufferNext bufferType adapt rep this =
     (let p = this\<lparr> currentRepresentations := (currentRepresentations this)(bufferType := rep) \<rparr>;
          p = p\<lparr> currentAdaptations := (currentAdaptations p)(bufferType := adapt) \<rparr>;
          p = (if bufferType = ''video''
               then recordState ''videoBitrate'' (bitrateOf rep) p else p)
      in if bufferType = ''audio''
         then recordState ''audioBitrate'' (bitrateOf rep) p else p)"

definition addLanguageSubscriptions :: "'abr Player \<Rightarrow> 'abr outcome" where
  "addLanguageSubscriptions this =
     (case languageManager this of
        None \<Rightarrow> Inl (AssertionError ''no languageManager received'', this)
      | Some lm \<Rightarrow> Inr (emit (Language_subscriptions lm) this))"

text \<open>
  The assertions under \<open>__DEV__\<close> ask for a manifest and a language manager in the value;
  a \<open>Manifest_infos\<close> always holds both.
\<close>

definition onManifestNext :: "manifest \<Rightarrow> language_manager \<Rightarrow> 'abr Player \<Rightarrow> 'abr outcome" where
  "onManifestNext m lm this =
     addLanguageSubscriptions
       (trigger ''manifestChange'' (Manifest_value m)
          (this\<lparr> manifest := Some m, languageManager := Some lm \<rparr>))"

definition onManifestUpdateNext :: "manifest \<Rightarrow> 'abr Player \<Rightarrow> 'abr Player" where
  "onManifestUpdateNext m this =
     trigger ''manifestUpdate'' (Manifest_value m) (this\<lparr> manifest := Some m \<rparr>)"

text \<open>
  The end of the four handlers:
  \<open>if (this._stream$) { this._stream$.next(x); } this._stream$.next(x);\<close>
\<close>

definition forwardToStream :: "bus_message \<Rightarrow> 'abr Player \<Rightarrow> 'abr outcome" where
  "forwardToStream msg this =
     (let p = (if stream this \<noteq> None then emit (Stream_next msg) this else this) in
      if stream p = None then Inl (TypeError, p)
      else Inr (emit (Stream_next msg) p))"

definition onStreamNext :: "stream_infos \<Rightarrow> 'abr Player \<Rightarrow> 'abr outcome" where
  "onStreamNext streamInfos this =
     and_then
       (case streamInfos of
          Buffer_infos bufferType adapt rep \<Rightarrow> Inr (onBufferNext bufferType adapt rep this)
        | Manifest_infos m lm \<Rightarrow> onManifestNext m lm this
        | ManifestUpdate_infos m \<Rightarrow> Inr (onManifestUpdateNext m this)
        | Pipeline_infos bufferType seg segmentData \<Rightarrow>
            (let p = trigger ''progress'' (Segment_value seg) this in
             if bufferType = ''image''
             then Inr (emit (ImageTrack_next (Some segmentData))
                        (trigger ''imageTrackUpdate'' (Image_track segmentData)
                           (p\<lparr> currentImagePlaylist := Some segmentData \<rparr>)))
             else Inr p)
        | Other_infos type \<Rightarrow> Inr this)
       (forwardToStream (Infos streamInfos))"

definition onErrorStreamNext :: "stream_error \<Rightarrow> 'abr Player \<Rightarrow> 'abr outcome" where
  "onErrorStreamNext error this =
     forwardToStream (Warning_message error) (trigger ''warning'' (Error_value error) this)"

definition onStreamError :: "stream_error \<Rightarrow> 'abr Player \<Rightarrow> 'abr outcome" where
  "onStreamError error this =
     (let p = resetContentState this;
          p = p\<lparr> fatalError := Some error \<rparr>;
          p = setPlayerState PLAYER_STOPPED p
      in case clearLoaded p of
           None \<Rightarrow> Inl (TypeError, p)
         | Some subject \<Rightarrow>
             forwardToStream (Error_message error)
               (trigger ''error'' (Error_value error) (emit ClearLoaded_next p)))"

definition onStreamComplete :: "'abr Player \<Rightarrow> 'abr outcome" where
  "onStreamComplete this =
     (let p = resetContentState this;
          p = setPlayerState PLAYER_ENDED p
      in case clearLoaded p of
           None \<Rightarrow> Inl (TypeError, p)
         | Some subject \<Rightarrow> forwardToStream Ended_message (emit ClearLoaded_next p))"

definition getError :: "'abr Player \<Rightarrow> stream_error option" where
  "getError this = fatalError this"

text \<open>A list of buffer events delivered one after the other.\<close>

fun onBufferEvents ::
    "(string \<times> adaptation option \<times> representation option) list \<Rightarrow> 'abr Player \<Rightarrow> 'abr Player" where
  "onBufferEvents [] this = this"
| "onBufferEvents ((bufferType, adapt, rep) # evs) this =
     onBufferEvents evs (onBufferNext bufferType adapt rep this)"

text \<open>
  A list of objects of the stream handled one after the other; a handler that throws ends
  the list. And the bitrate an object brings to the buffer of a given type: that of a
  "buffer" object for that type, nothing otherwise.
\<close>

fun onStreamEvents :: "stream_infos list \<Rightarrow> 'abr Player \<Rightarrow> 'abr outcome" where
  "onStreamEvents [] this = Inr this"
| "onStreamEvents (streamInfos # rest) this =
     and_then (onStreamNext streamInfos this) (onStreamEvents rest)"

definition bufferBitrate :: "string \<Rightarrow> stream_infos \<Rightarrow> int option" where
  "bufferBitrate bt streamInfos =
     (case streamInfos of
        Buffer_infos bufferType adapt rep \<Rightarrow>
          if bufferType = bt then Some (bitrateOf rep) else None
      | _ \<Rightarrow> None)"

subsection \<open>Loading\<close>

text \<open>
  \<open>_triggerTimeChange(t)\<close>; what \<open>positionData\<close> holds is computed by functions of
  \<open>./timings\<close> from \<open>t\<close> and the manifest, and is kept as that pair.
\<close>

definition triggerTimeChange :: "timings option \<Rightarrow> 'abr Player \<Rightarrow> 'abr Player" where
  "triggerTimeChange t this =
     (case (manifest this, t) of
        (Some m, Some tm) \<Rightarrow>
          trigger ''currentTimeChange'' (Timings_value tm)
            (trigger ''positionUpdate'' (Position_data tm m) this)
      | _ \<Rightarrow> trigger ''currentTimeChange'' Empty_timings this)"

text \<open>
  \<open>loadVideo(options)\<close>. Its first statement, \<open>parseLoadVideoOptions(this, options)\<close>,
  reads the player, changes nothing in it, and returns the parsed options or throws on one
  of its two assertions: that result is the argument \<open>parsed\<close>. Then, in the order of the
  source: \<open>this.stop()\<close>; the time fragment; \<open>_playing$.next(autoPlay)\<close>; the call of
  \<open>this._createPipelines\<close>; the stream built on \<open>this._abrManager\<close>;
  \<open>videoElement.textTracks\<close>; \<open>this._clearLoaded$.take(1)\<close>; the subscription to the state
  changes, which start with \<open>PLAYER_LOADING\<close>; \<open>errorStream.takeUntil\<close>; \<open>stream.connect()\<close>;
  and \<open>_triggerTimeChange()\<close>, without argument, as nothing has stopped the player in
  between. What the observables subscribed to deliver while \<open>loadVideo\<close> runs, other than
  that first state, is not modelled.
\<close>

definition loadVideo :: "js_error + parsed_options \<Rightarrow> 'abr Player \<Rightarrow> 'abr outcome" where
  "loadVideo parsed this =
     (case parsed of
        Inl e \<Rightarrow> Inl (e, this)
      | Inr options \<Rightarrow>
          and_then (stop this) (\<lambda>p.
            let p = p\<lparr> timeFragment := opt_timeFragment options \<rparr>;
                p = emit (Playing_next (opt_autoPlay options)) p in
            if createPipelines p = None then Inl (TypeError, p)
            else let p = emit Create_pipelines p;
                     p = emit (Stream_create options (abrManager p)) p in
            if videoElement p = None then Inl (TypeError, p)
            else if clearLoaded p = None then Inl (TypeError, p)
            else let p = setPlayerState PLAYER_LOADING p in
            if errorStream p = None then Inl (TypeError, p)
            else let p = emit Stream_connect p in
            Inr (triggerTimeChange None p)))"

subsection \<open>The setters\<close>

definition assertManifest :: "'abr Player \<Rightarrow> 'abr outcome" where
  "assertManifest player =
     (if manifest player = None
      then Inl (AssertionError ''player: no manifest loaded'', player)
      else Inr player)"

definition getAvailableVideoBitrates :: "'abr Player \<Rightarrow> int list" where
  "getAvailableVideoBitrates this =
     (case currentAdaptations this ''video'' of
        None \<Rightarrow> []
      | Some video \<Rightarrow> availableBitrates video)"

definition getAvailableAudioBitrates :: "'abr Player \<Rightarrow> int list" where
  "getAvailableAudioBitrates this =
     (case currentAdaptations this ''audio'' of
        None \<Rightarrow> []
      | Some audio \<Rightarrow> availableBitrates audio)"

text \<open>A method of the manager called on \<open>this._abrManager\<close>.\<close>

definition onAbrManager :: "('abr \<Rightarrow> 'abr) \<Rightarrow> 'abr Player \<Rightarrow> 'abr outcome" where
  "onAbrManager method this =
     (case abrManager this of
        None \<Rightarrow> Inl (TypeError, this)
      | Some manager \<Rightarrow> Inr (this\<lparr> abrManager := Some (method manager) \<rparr>))"

definition setVideoBitrate :: "'abr Adaptive_class \<Rightarrow> int \<Rightarrow> 'abr Player \<Rightarrow> 'abr outcome" where
  "setVideoBitrate A btr this =
     and_then (assertManifest this) (\<lambda>p.
       if \<not> (btr = 0 \<or> btr \<in> set (getAvailableVideoBitrates p))
       then Inl (AssertionError ''player: video bitrate unavailable'', p)
       else onAbrManager (Adaptive_setVideoBitrate A btr) p)"

definition setAudioBitrate :: "'abr Adaptive_class \<Rightarrow> int \<Rightarrow> 'abr Player \<Rightarrow> 'abr outcome" where
  "setAudioBitrate A btr this =
     and_then (assertManifest this) (\<lambda>p.
       if \<not> (btr = 0 \<or> btr \<in> set (getAvailableAudioBitrates p))
       then Inl (AssertionError ''player: audio bitrate unavailable'', p)
       else onAbrManager (Adaptive_setAudioBitrate A btr) p)"

definition setMaxVideoBitrate :: "'abr Adaptive_class \<Rightarrow> int \<Rightarrow> 'abr Player \<Rightarrow> 'abr outcome" where
  "setMaxVideoBitrate A btr this = onAbrManager (Adaptive_setVideoMaxBitrate A btr) this"

definition setMaxAudioBitrate :: "'abr Adaptive_class \<Rightarrow> int \<Rightarrow> 'abr Player \<Rightarrow> 'abr outcome" where
  "setMaxAudioBitrate A btr this = onAbrManager (Adaptive_setAudioMaxBitrate A btr) this"

text \<open>
  \<open>setMaxBufferBehind\<close>, \<open>setMaxBufferAhead\<close> and \<open>setWantedBufferAhead\<close> call a method on
  \<open>this.adaptive\<close>.
\<close>

definition onAdaptive :: "'abr Player \<Rightarrow> 'abr outcome" where
  "onAdaptive this =
     (case adaptive this of
        None \<Rightarrow> Inl (TypeError, this)
      | Some manager \<Rightarrow> Inr this)"

definition setMaxBufferBehind :: "real \<Rightarrow> 'abr Player \<Rightarrow> 'abr outcome" where
  "setMaxBufferBehind depthInSeconds this = onAdaptive this"

definition setMaxBufferAhead :: "real \<Rightarrow> 'abr Player \<Rightarrow> 'abr outcome" where
  "setMaxBufferAhead depthInSeconds this = onAdaptive this"

definition setWantedBufferAhead :: "real \<Rightarrow> 'abr Player \<Rightarrow> 'abr outcome" where
  "setWantedBufferAhead sizeInSeconds this = onAdaptive this"

subsection \<open>A manager and a player to run the methods on\<close>

text \<open>
  Modelled from the spec: the ABR manager of \<open>../adaptive\<close>, which is not part of the
  sources. Of the chooser state it keeps, for video and for audio, the manual bitrate
  (0 for automatic) and the ceiling; each setter stores its argument.
\<close>

record abr_settings =
  manualVideoBitrate :: int
  manualAudioBitrate :: int
  maxVideoBitrate :: int
  maxAudioBitrate :: int

definition spec_Adaptive :: "abr_settings Adaptive_class" where
  "spec_Adaptive =
     \<lparr> Adaptive_setVideoBitrate = (\<lambda>btr a. a\<lparr> manualVideoBitrate := btr \<rparr>),
       Adaptive_setAudioBitrate = (\<lambda>btr a. a\<lparr> manualAudioBitrate := btr \<rparr>),
       Adaptive_setVideoMaxBitrate = (\<lambda>btr a. a\<lparr> maxVideoBitrate := btr \<rparr>),
       Adaptive_setAudioMaxBitrate = (\<lambda>btr a. a\<lparr> maxAudioBitrate := btr \<rparr>) \<rparr>"

definition new_player :: "abr_settings Player" where
  "new_player =
     Player_new \<lparr> manualVideoBitrate = 0, manualAudioBitrate = 0,
                  maxVideoBitrate = 5000000, maxAudioBitrate = 128000 \<rparr>"

definition some_options :: parsed_options where
  "some_options =
     \<lparr> opt_url = ''http://host/content.mpd'',
       opt_timeFragment = \<lparr> fragment_start = None, fragment_end = None \<rparr>,
       opt_autoPlay = True \<rparr>"

text \<open>
  The player after a first \<open>loadVideo\<close>, a fatal error of a stream, and a buffer event for
  a video representation of a given bitrate.
\<close>

definition loading_player :: "abr_settings Player" where
  "loading_player = outcome_player (loadVideo (Inr some_options) new_player)"

definition fatal_error :: stream_error where
  "fatal_error = StreamError ''PIPELINE_LOAD_ERROR''"

definition video_at :: "int \<Rightarrow> string \<times> adaptation option \<times> representation option" where
  "video_at b = (''video'', None, Some \<lparr> bitrate = b \<rparr>)"

text \<open>The "buffer" object of the stream for a video representation of 1000 bps.\<close>

definition video_1000 :: stream_infos where
  "video_1000 = Buffer_infos ''video'' None (Some \<lparr> bitrate = 1000 \<rparr>)"

section \<open>Properties of the bandwidth estimator\<close>

lemma getLowLatencyBandwidth_eq:
  "getLowLatencyBandwidth fl this =
     (if length (lowLatencyBandwidthBuffer this) < 3 then None
      else Some (ring_mean fl (lowLatencyBandwidthBuffer this)))"
  by (simp add: getLowLatencyBandwidth_def ring_mean_def)

lemma pushBandwidth_ring_bound:
  "length (lowLatencyBandwidthBuffer this) \<le> 3
     \<Longrightarrow> length (lowLatencyBandwidthBuffer (pushBandwidth b this)) \<le> 3"
  by (simp add: pushBandwidth_def Let_def)

lemma addSample_ring_bound:
  "length (lowLatencyBandwidthBuffer this) \<le> 3
     \<Longrightarrow> length (lowLatencyBandwidthBuffer (addSample cfg E fl d n c this)) \<le> 3"
  by (simp add: addSample_def Let_def pushBandwidth_ring_bound)

lemma addSamples_ring_bound:
  "length (lowLatencyBandwidthBuffer this) \<le> 3
     \<Longrightarrow> length (lowLatencyBandwidthBuffer (addSamples cfg E fl samples this)) \<le> 3"
  unfolding addSamples_def
  by (induction samples arbitrary: this) (simp_all add: addSample_ring_bound)

lemma pushBandwidth_full:
  "length (lowLatencyBandwidthBuffer this) = 3
     \<Longrightarrow> lowLatencyBandwidthBuffer (pushBandwidth b this)
           = tl (lowLatencyBandwidthBuffer this) @ [b]"
  by (cases "lowLatencyBandwidthBuffer this") (simp_all add: pushBandwidth_def Let_def)

lemma addSample_lowLatencyMode:
  "lowLatencyMode (addSample cfg E fl d n c this) = lowLatencyMode this"
  by (simp add: addSample_def pushBandwidth_def Let_def)

lemma addSamples_lowLatencyMode:
  "lowLatencyMode (addSamples cfg E fl samples this) = lowLatencyMode this"
  unfolding addSamples_def
  by (induction samples arbitrary: this) (simp_all add: addSample_lowLatencyMode)

lemma new_ring_bound:
  "length (lowLatencyBandwidthBuffer (BandwidthEstimator_new cfg E ll)) \<le> 3"
  by (simp add: BandwidthEstimator_new_def)

lemma reset_ring_bound:
  "length (lowLatencyBandwidthBuffer this) \<le> 3
     \<Longrightarrow> length (lowLatencyBandwidthBuffer (reset cfg E this)) \<le> 3"
  by (simp add: reset_def)

subsection \<open>The estimate under the minimum of sampled bytes\<close>

text \<open>
  C1, as the specification states it: whatever samples were fed and whatever the flag, no
  estimate is returned while the bytes sampled are under \<open>ABR_MINIMUM_TOTAL_BYTES\<close>, also in
  low-latency mode with a full ring. Three chunks of 1000 bytes refute it: they are too
  small to be counted (\<open>bytesSampled\<close> stays 0), they fill the ring all the same, and
  \<open>getEstimate(true)\<close> returns their mean of 80 kbps.
\<close>

theorem C1_full_ring_counterexample:
  "bytesSampled (addSamples run_config spec_EWMA no_rounding
        [small_chunk, small_chunk, small_chunk]
        (BandwidthEstimator_new run_config spec_EWMA True))
     < ABR_MINIMUM_TOTAL_BYTES run_config \<and>
   getEstimate run_config spec_EWMA no_rounding True
     (addSamples run_config spec_EWMA no_rounding [small_chunk, small_chunk, small_chunk]
        (BandwidthEstimator_new run_config spec_EWMA True)) = Some 80000"
  by (simp add: addSamples_def addSample_def getEstimate_def getLowLatencyBandwidth_def
      pushBandwidth_def BandwidthEstimator_new_def run_config_def small_chunk_def
      no_rounding_def Let_def)

text \<open>
  C1, amended: for every list of samples fed to a new estimator and every flag, while the
  bytes sampled are under \<open>ABR_MINIMUM_TOTAL_BYTES\<close> the estimate is undefined unless the
  estimator is in low-latency mode, the flag is true and the ring holds its three entries;
  in that one case the estimate is the mean of the ring.
\<close>

theorem C1_estimate_below_minimum:
  "bytesSampled (addSamples cfg E fl samples (BandwidthEstimator_new cfg E lowLatency))
       < ABR_MINIMUM_TOTAL_BYTES cfg
   \<Longrightarrow> getEstimate cfg E fl flag
         (addSamples cfg E fl samples (BandwidthEstimator_new cfg E lowLatency))
       = (if lowLatency \<and> flag \<and>
             length (lowLatencyBandwidthBuffer
               (addSamples cfg E fl samples (BandwidthEstimator_new cfg E lowLatency))) = 3
          then Some (ring_mean fl (lowLatencyBandwidthBuffer
               (addSamples cfg E fl samples (BandwidthEstimator_new cfg E lowLatency))))
          else None)"
proof -
  define this where
    "this = addSamples cfg E fl samples (BandwidthEstimator_new cfg E lowLatency)"
  assume below:
    "bytesSampled (addSamples cfg E fl samples (BandwidthEstimator_new cfg E lowLatency))
       < ABR_MINIMUM_TOTAL_BYTES cfg"
  have len: "length (lowLatencyBandwidthBuffer this) \<le> 3"
    unfolding this_def by (rule addSamples_ring_bound) (rule new_ring_bound)
  have ll: "lowLatencyMode this = lowLatency"
    unfolding this_def by (simp add: addSamples_lowLatencyMode BandwidthEstimator_new_def)
  from below have "bytesSampled this < ABR_MINIMUM_TOTAL_BYTES cfg"
    by (simp add: this_def)
  with len ll have "getEstimate cfg E fl flag this =
      (if lowLatency \<and> flag \<and> length (lowLatencyBandwidthBuffer this) = 3
       then Some (ring_mean fl (lowLatencyBandwidthBuffer this)) else None)"
    by (auto simp: getEstimate_def getLowLatencyBandwidth_eq Let_def)
  then show ?thesis unfolding this_def .
qed

theorem C1_estimate_below_minimum_witness:
  "bytesSampled (addSamples run_config spec_EWMA no_rounding [small_chunk, small_chunk]
        (BandwidthEstimator_new run_config spec_EWMA True))
     < ABR_MINIMUM_TOTAL_BYTES run_config \<and>
   getEstimate run_config spec_EWMA no_rounding True
     (addSamples run_config spec_EWMA no_rounding [small_chunk, small_chunk]
        (BandwidthEstimator_new run_config spec_EWMA True)) = None"
proof -
  have below: "bytesSampled (addSamples run_config spec_EWMA no_rounding
        [small_chunk, small_chunk]
        (BandwidthEstimator_new run_config spec_EWMA True))
     < ABR_MINIMUM_TOTAL_BYTES run_config"
    by (simp add: addSamples_def addSample_def getLowLatencyBandwidth_def
        pushBandwidth_def BandwidthEstimator_new_def run_config_def small_chunk_def
        no_rounding_def Let_def)
  have ring: "lowLatencyBandwidthBuffer (addSamples run_config spec_EWMA no_rounding
        [small_chunk, small_chunk]
        (BandwidthEstimator_new run_config spec_EWMA True)) = [80000, 80000]"
    by (simp add: addSamples_def addSample_def getLowLatencyBandwidth_def
        pushBandwidth_def BandwidthEstimator_new_def run_config_def small_chunk_def
        no_rounding_def Let_def)
  from below ring C1_estimate_below_minimum [OF below, of True]
  show ?thesis by simp
qed

subsection \<open>The chunk filter\<close>

text \<open>
  C2, as the specification states it: on a full ring of mean \<open>last\<close>, a chunk leaves both
  averages, \<open>bytesSampled\<close> and the ring unchanged if and only if
  \<open>last * 0.8 < bw \<le> last\<close>. On a ring of three chunks of 0 bps, a chunk of 0 bytes
  received in 100 ms has \<open>bw = 0\<close>, which is not above \<open>0 * 0.8\<close>; it is pushed, the ring
  is three zeros again, the chunk is too small to be counted, and the estimator is what it
  was: unchanged, and the condition does not hold.
\<close>

theorem C2_zero_ring_counterexample:
  "lowLatencyMode zero_ring_estimator \<and>
   length (lowLatencyBandwidthBuffer zero_ring_estimator) = 3 \<and>
   \<not> (no_rounding (ring_mean no_rounding (lowLatencyBandwidthBuffer zero_ring_estimator)
                     * no_rounding 0.8)
        < no_rounding (no_rounding (0 * 8000) / 100) \<and>
      no_rounding (no_rounding (0 * 8000) / 100)
        \<le> ring_mean no_rounding (lowLatencyBandwidthBuffer zero_ring_estimator)) \<and>
   addSample run_config spec_EWMA no_rounding 100 0 True zero_ring_estimator
     = zero_ring_estimator"
  by (simp add: addSample_def getLowLatencyBandwidth_def pushBandwidth_def ring_mean_def
      zero_ring_estimator_def BandwidthEstimator_new_def run_config_def no_rounding_def Let_def)

text \<open>
  C2, amended: in low-latency mode, with a ring of 3 entries of mean \<open>lastBw\<close>, a chunk
  sample of bandwidth \<open>bw = n * 8000 / d\<close> leaves the whole estimator as it was (both
  averages, \<open>bytesSampled\<close> and the ring) if \<open>lastBw * 0.8 < bw \<le> lastBw\<close>; in every other
  case the ring loses its oldest entry and gains \<open>bw\<close> at its end, holds at most 3
  entries, and the sample goes on to the size test, which counts its bytes unless it is
  too small. The mean, the bandwidth and the product by \<open>0.8\<close> are those of the program,
  rounded where it rounds, whatever the rounding. The duration is not zero, as the
  quotient of the program is not a finite double there.
\<close>

theorem C2_chunk_filter:
  assumes "lowLatencyMode this"
      and "length (lowLatencyBandwidthBuffer this) = 3"
      and "d \<noteq> 0"
      and "bw = fl (fl (n * 8000) / d)"
      and "lastBw = ring_mean fl (lowLatencyBandwidthBuffer this)"
  shows "(fl (lastBw * fl 0.8) < bw \<and> bw \<le> lastBw
            \<longrightarrow> addSample cfg E fl d n True this = this) \<and>
         (\<not> (fl (lastBw * fl 0.8) < bw \<and> bw \<le> lastBw)
            \<longrightarrow> lowLatencyBandwidthBuffer (addSample cfg E fl d n True this)
                  = tl (lowLatencyBandwidthBuffer this) @ [bw]
                \<and> length (lowLatencyBandwidthBuffer (addSample cfg E fl d n True this)) \<le> 3
                \<and> bytesSampled (addSample cfg E fl d n True this)
                  = (if n < ABR_MINIMUM_CHUNK_SIZE cfg then bytesSampled this
                     else fl (bytesSampled this + n)))"
proof (intro conjI impI)
  assume "fl (lastBw * fl 0.8) < bw \<and> bw \<le> lastBw"
  with assms show "addSample cfg E fl d n True this = this"
    by (simp add: addSample_def getLowLatencyBandwidth_eq Let_def)
next
  assume "\<not> (fl (lastBw * fl 0.8) < bw \<and> bw \<le> lastBw)"
  with assms show "lowLatencyBandwidthBuffer (addSample cfg E fl d n True this)
      = tl (lowLatencyBandwidthBuffer this) @ [bw]"
    by (auto simp: addSample_def getLowLatencyBandwidth_eq Let_def pushBandwidth_full)
next
  from assms(2)
  show "length (lowLatencyBandwidthBuffer (addSample cfg E fl d n True this)) \<le> 3"
    by (simp add: addSample_ring_bound)
next
  assume "\<not> (fl (lastBw * fl 0.8) < bw \<and> bw \<le> lastBw)"
  with assms show "bytesSampled (addSample cfg E fl d n True this)
      = (if n < ABR_MINIMUM_CHUNK_SIZE cfg then bytesSampled this
         else fl (bytesSampled this + n))"
    by (auto simp: addSample_def getLowLatencyBandwidth_eq Let_def pushBandwidth_def)
qed

text \<open>
  When the rounded mean of three equal entries falls under the entries, as it does in
  doubles for chunks of 40000 bytes received in 7 ms, a fourth chunk of the same bandwidth
  is not rejected: it is pushed, and counted unless it is too small.
\<close>

lemma equal_chunk_under_rounded_mean:
  assumes "lowLatencyMode this"
      and "lowLatencyBandwidthBuffer this = [x, x, x]"
      and "fl (fl (n * 8000) / d) = x"
      and "ring_mean fl [x, x, x] < x"
  shows "lowLatencyBandwidthBuffer (addSample cfg E fl d n True this) = [x, x, x] \<and>
         bytesSampled (addSample cfg E fl d n True this)
           = (if n < ABR_MINIMUM_CHUNK_SIZE cfg then bytesSampled this
              else fl (bytesSampled this + n))"
  using assms
  by (simp add: addSample_def getLowLatencyBandwidth_eq pushBandwidth_def Let_def)

text \<open>
  The scenario of the specification: on a ring of three times 4 Mbps, a chunk of 3.6 Mbps
  (450000 bytes in 1000 ms) is rejected, and a chunk of 5 Mbps (625000 bytes) is pushed.
\<close>

theorem C2_chunk_filter_witness:
  "lowLatencyMode full_ring_estimator \<and>
   length (lowLatencyBandwidthBuffer full_ring_estimator) = 3 \<and>
   (1000::real) \<noteq> 0 \<and>
   ring_mean no_rounding (lowLatencyBandwidthBuffer full_ring_estimator) = 4000000 \<and>
   no_rounding (no_rounding (450000 * 8000) / 1000) = 3600000 \<and>
   no_rounding (4000000 * no_rounding 0.8) < 3600000 \<and> (3600000::real) \<le> 4000000 \<and>
   addSample run_config spec_EWMA no_rounding 1000 450000 True full_ring_estimator
     = full_ring_estimator \<and>
   no_rounding (no_rounding (625000 * 8000) / 1000) = 5000000 \<and>
   \<not> (no_rounding (4000000 * no_rounding 0.8) < 5000000 \<and> (5000000::real) \<le> 4000000) \<and>
   lowLatencyBandwidthBuffer
     (addSample run_config spec_EWMA no_rounding 1000 625000 True full_ring_estimator)
     = [4000000, 4000000, 5000000]"
proof -
  have ll: "lowLatencyMode full_ring_estimator"
    by (simp add: full_ring_estimator_def BandwidthEstimator_new_def)
  have len: "length (lowLatencyBandwidthBuffer full_ring_estimator) = 3"
    by (simp add: full_ring_estimator_def)
  have ring: "lowLatencyBandwidthBuffer full_ring_estimator = [4000000, 4000000, 4000000]"
    by (simp add: full_ring_estimator_def)
  have d: "(1000::real) \<noteq> 0" by simp
  have mean: "(4000000::real)
      = ring_mean no_rounding (lowLatencyBandwidthBuffer full_ring_estimator)"
    by (simp add: ring ring_mean_def no_rounding_def)
  have bw1: "(3600000::real) = no_rounding (no_rounding (450000 * 8000) / 1000)"
    by (simp add: no_rounding_def)
  have bw2: "(5000000::real) = no_rounding (no_rounding (625000 * 8000) / 1000)"
    by (simp add: no_rounding_def)
  from C2_chunk_filter [OF ll len d bw1 mean, of run_config spec_EWMA]
  have rejected:
    "addSample run_config spec_EWMA no_rounding 1000 450000 True full_ring_estimator
       = full_ring_estimator"
    by (simp add: no_rounding_def)
  from C2_chunk_filter [OF ll len d bw2 mean, of run_config spec_EWMA]
  have pushed:
    "lowLatencyBandwidthBuffer
       (addSample run_config spec_EWMA no_rounding 1000 625000 True full_ring_estimator)
       = [4000000, 4000000, 5000000]"
    by (simp add: no_rounding_def ring)
  from ll len mean [symmetric] rejected pushed
  show ?thesis by (simp add: no_rounding_def)
qed

subsection \<open>The structure of the estimate\<close>

text \<open>
  C3: on every estimator whose ring holds at most 3 entries, which is every estimator the
  constructor, \<open>addSample\<close> and \<open>reset\<close> can produce (lemmas \<open>new_ring_bound\<close>,
  \<open>addSample_ring_bound\<close>, \<open>reset_ring_bound\<close>), \<open>getEstimate\<close> is the function the
  specification describes: \<open>regular\<close> when low-latency mode is off or the flag is false,
  and otherwise the larger of \<open>regular\<close> and the mean of a full ring, the defined one of
  the two, or undefined.
\<close>

theorem C3_getEstimate_structure:
  "length (lowLatencyBandwidthBuffer this) \<le> 3
     \<Longrightarrow> getEstimate cfg E fl serverMayLimit this
           = getEstimate_spec cfg E fl serverMayLimit this"
  by (auto simp: getEstimate_def getEstimate_spec_def getLowLatencyBandwidth_eq Let_def
      split: option.splits)

theorem C3_getEstimate_structure_witness:
  "length (lowLatencyBandwidthBuffer full_ring_estimator) \<le> 3 \<and>
   getEstimate run_config spec_EWMA no_rounding True full_ring_estimator = Some 4000000 \<and>
   getEstimate_spec run_config spec_EWMA no_rounding True full_ring_estimator = Some 4000000"
proof -
  have h: "length (lowLatencyBandwidthBuffer full_ring_estimator) \<le> 3"
    by (simp add: full_ring_estimator_def BandwidthEstimator_new_def)
  have e: "getEstimate run_config spec_EWMA no_rounding True full_ring_estimator
      = Some 4000000"
    by (simp add: getEstimate_def getLowLatencyBandwidth_def full_ring_estimator_def
        BandwidthEstimator_new_def run_config_def no_rounding_def)
  from h e C3_getEstimate_structure [OF h, of run_config spec_EWMA no_rounding True]
  show ?thesis by simp
qed

subsection \<open>What a reset leaves in place\<close>

text \<open>
  C8: \<open>reset()\<close> puts a new moving average in place of the fast and of the slow one and
  sets \<open>bytesSampled\<close> to 0; the ring of chunk bandwidths and the low-latency flag are
  those of before the call.
\<close>

theorem C8_reset_frame:
  "fastEWMA (reset cfg E this) = EWMA_new E (ABR_FAST_EMA cfg) \<and>
   slowEWMA (reset cfg E this) = EWMA_new E (ABR_SLOW_EMA cfg) \<and>
   bytesSampled (reset cfg E this) = 0 \<and>
   lowLatencyBandwidthBuffer (reset cfg E this) = lowLatencyBandwidthBuffer this \<and>
   lowLatencyMode (reset cfg E this) = lowLatencyMode this"
  by (simp add: reset_def)

section \<open>Properties of the player\<close>

lemmas player_defs = emit_def trigger_def setPlayerState_def resetContentState_def

subsection \<open>Effects of a step\<close>

lemma forwarded_append: "forwarded (xs @ ys) = forwarded xs @ forwarded ys"
  by (induction xs rule: forwarded.induct) simp_all

lemma triggered_append: "triggered evt (xs @ ys) = triggered evt xs @ triggered evt ys"
  by (induction evt xs rule: triggered.induct) simp_all

lemma forwardToStream_twice:
  "stream p \<noteq> None \<Longrightarrow>
     forwardToStream msg p = Inr (p\<lparr> trace := trace p @ [Stream_next msg, Stream_next msg] \<rparr>)"
  by (simp add: forwardToStream_def emit_def Let_def)

lemma forwardToStream_null:
  "stream p = None \<Longrightarrow> forwardToStream msg p = Inl (TypeError, p)"
  by (simp add: forwardToStream_def)

subsection \<open>The player the constructor returns, and the player while loading\<close>

lemma new_player_notDisposed: "notDisposed new_player"
  by (simp add: new_player_def Player_new_def player_defs notDisposed_def)

lemma new_player_stopped: "state new_player = Some PLAYER_STOPPED \<and> manifest new_player = None"
  by (simp add: new_player_def Player_new_def player_defs)

lemma new_player_manager:
  "abrManager new_player = Some \<lparr> manualVideoBitrate = 0, manualAudioBitrate = 0,
                  maxVideoBitrate = 5000000, maxAudioBitrate = 128000 \<rparr>"
  by (simp add: new_player_def Player_new_def player_defs)

lemma stop_when_stopped: "state this = Some PLAYER_STOPPED \<Longrightarrow> stop this = Inr this"
  by (simp add: stop_def)

lemma stop_returns: "stop this = Inr p \<Longrightarrow> state p = Some PLAYER_STOPPED"
  by (auto simp: stop_def Let_def player_defs split: if_splits option.splits)

lemma stop_notDisposed:
  "notDisposed this
     \<Longrightarrow> \<exists>p. stop this = Inr p \<and> notDisposed p \<and> state p = Some PLAYER_STOPPED"
  by (auto simp: stop_def Let_def player_defs notDisposed_def split: option.splits)

lemma loadVideo_when_stopped:
  assumes "notDisposed this" and "state this = Some PLAYER_STOPPED"
  shows "loadVideo (Inr options) this =
     Inr (this\<lparr> state := Some PLAYER_LOADING,
                timeFragment := opt_timeFragment options,
                trace := trace this @
                  [Playing_next (opt_autoPlay options), Create_pipelines,
                   Stream_create options (abrManager this),
                   Trigger ''playerStateChange'' (Player_state PLAYER_LOADING),
                   Stream_connect,
                   Trigger ''currentTimeChange'' Empty_timings] \<rparr>)"
  using assms
  by (simp add: loadVideo_def stop_when_stopped and_then_def notDisposed_def Let_def
      triggerTimeChange_def player_defs split: option.splits)

lemma loading_player_eq:
  "loading_player =
     new_player\<lparr> state := Some PLAYER_LOADING,
                timeFragment := opt_timeFragment some_options,
                trace := trace new_player @
                  [Playing_next (opt_autoPlay some_options), Create_pipelines,
                   Stream_create some_options (abrManager new_player),
                   Trigger ''playerStateChange'' (Player_state PLAYER_LOADING),
                   Stream_connect,
                   Trigger ''currentTimeChange'' Empty_timings] \<rparr>"
  by (simp add: loading_player_def outcome_player_def
      loadVideo_when_stopped [OF new_player_notDisposed] new_player_stopped)

lemma loading_player_notDisposed:
  "notDisposed loading_player \<and> state loading_player = Some PLAYER_LOADING"
  using new_player_notDisposed
  by (simp add: loading_player_eq notDisposed_def)

lemma first_load: "loadVideo (Inr some_options) new_player = Inr loading_player"
  by (simp add: loading_player_eq
      loadVideo_when_stopped [OF new_player_notDisposed] new_player_stopped)

subsection \<open>Stopping twice\<close>

text \<open>
  C6: \<open>stop()\<close> on a player whose state is \<open>STOPPED\<close> returns the player as it was: no
  field reset, nothing triggered, nothing sent on \<open>_clearLoaded$\<close>. So \<open>stop(); stop()\<close>
  does what one \<open>stop()\<close> does, on every player.
\<close>

theorem C6_stop_idempotent:
  "(state this = Some PLAYER_STOPPED \<longrightarrow> stop this = Inr this) \<and>
   and_then (stop this) stop = stop this"
proof
  show "state this = Some PLAYER_STOPPED \<longrightarrow> stop this = Inr this"
    by (simp add: stop_when_stopped)
  show "and_then (stop this) stop = stop this"
  proof (cases "stop this")
    case (Inl thrown)
    then show ?thesis by (simp add: and_then_def)
  next
    case (Inr p)
    then have "stop p = Inr p" by (simp add: stop_returns stop_when_stopped)
    with Inr show ?thesis by (simp add: and_then_def)
  qed
qed

theorem C6_stop_idempotent_witness:
  "state new_player = Some PLAYER_STOPPED \<and> stop new_player = Inr new_player \<and>
   and_then (stop new_player) stop = stop new_player"
proof -
  have "state new_player = Some PLAYER_STOPPED"
    by (simp add: new_player_stopped)
  with C6_stop_idempotent [of new_player] show ?thesis by blast
qed

subsection \<open>Disposing twice\<close>

lemma dispose_disposed:
  "state this = Some PLAYER_STOPPED \<Longrightarrow> clearLoaded this = None
     \<Longrightarrow> dispose this = Inl (TypeError, this)"
  by (simp add: dispose_def stop_when_stopped and_then_def)

lemma dispose_after_stop:
  "notDisposed p \<Longrightarrow> state p = Some PLAYER_STOPPED
     \<Longrightarrow> \<exists>q. dispose p = Inr q \<and> state q = Some PLAYER_STOPPED \<and> clearLoaded q = None"
  by (simp add: dispose_def stop_when_stopped and_then_def notDisposed_def Let_def emit_def)

text \<open>
  C4, as the specification states it: a second \<open>dispose()\<close> completes without throwing.
  On the player the constructor returns, the second of two calls throws.
\<close>

theorem C4_second_dispose_counterexample:
  "throws (and_then (dispose new_player) dispose)"
  by (simp add: throws_def and_then_def dispose_def stop_def new_player_def Player_new_def
      player_defs Let_def)

text \<open>
  C4, amended: on a player that was not disposed of, \<open>dispose()\<close> completes without
  throwing; a second \<open>dispose()\<close> throws a \<open>TypeError\<close> and changes nothing, as the first
  call has set \<open>_clearLoaded$\<close> to \<open>null\<close> and the second calls \<open>complete\<close> on it.
\<close>

theorem C4_dispose_once:
  "notDisposed this \<Longrightarrow> \<exists>p. dispose this = Inr p \<and> dispose p = Inl (TypeError, p)"
proof -
  assume "notDisposed this"
  then obtain p where p: "stop this = Inr p" "notDisposed p" "state p = Some PLAYER_STOPPED"
    using stop_notDisposed by blast
  then obtain q where q: "dispose p = Inr q" "state q = Some PLAYER_STOPPED" "clearLoaded q = None"
    using dispose_after_stop by blast
  have "dispose this = dispose p"
    using p by (simp add: dispose_def and_then_def stop_when_stopped)
  with q show ?thesis by (auto simp: dispose_disposed)
qed

theorem C4_dispose_once_witness:
  "notDisposed new_player \<and>
   (\<exists>p. dispose new_player = Inr p \<and> dispose p = Inl (TypeError, p))"
  using C4_dispose_once [OF new_player_notDisposed] new_player_notDisposed by simp

subsection \<open>Setters on a stopped player\<close>

lemma setter_on_manager:
  "abrManager this = Some manager
     \<Longrightarrow> onAbrManager method this = Inr (this\<lparr> abrManager := Some (method manager) \<rparr>)"
  by (simp add: onAbrManager_def)

text \<open>
  The constructor, \<open>stop()\<close> and the handler of fatal errors, which are the ways into
  \<open>STOPPED\<close>, leave no manifest.
\<close>

lemma stopped_without_manifest:
  "manifest (Player_new manager) = None \<and> state (Player_new manager) = Some PLAYER_STOPPED"
  "stop this = Inr p \<Longrightarrow> state this \<noteq> Some PLAYER_STOPPED \<Longrightarrow> manifest p = None"
  "onStreamError error this = Inr p \<Longrightarrow> manifest p = None \<and> state p = Some PLAYER_STOPPED"
  by (auto simp: Player_new_def stop_def onStreamError_def forwardToStream_def player_defs Let_def
      split: option.splits if_splits)

text \<open>
  The three setters of the buffer sizes throw on every player the constructor has made:
  nothing assigns \<open>adaptive\<close>.
\<close>

lemma buffer_setters_throw:
  "adaptive this = None \<Longrightarrow>
     setMaxBufferBehind s this = Inl (TypeError, this) \<and>
     setMaxBufferAhead s this = Inl (TypeError, this) \<and>
     setWantedBufferAhead s this = Inl (TypeError, this)"
  by (simp add: setMaxBufferBehind_def setMaxBufferAhead_def setWantedBufferAhead_def
      onAdaptive_def)

lemma adaptive_never_set: "adaptive (Player_new manager) = None"
  by (simp add: Player_new_def player_defs)

text \<open>
  C5, as the specification states it: every setter called on a stopped player succeeds.
  On the player the constructor returns, which is \<open>STOPPED\<close>, \<open>setVideoBitrate(0)\<close> and
  \<open>setAudioBitrate(0)\<close> throw.
\<close>

theorem C5_manual_bitrate_counterexample:
  "state new_player = Some PLAYER_STOPPED \<and>
   throws (setVideoBitrate spec_Adaptive 0 new_player) \<and>
   throws (setAudioBitrate spec_Adaptive 0 new_player)"
  by (simp add: new_player_stopped throws_def setVideoBitrate_def setAudioBitrate_def
      assertManifest_def and_then_def)

text \<open>
  C5, amended: on a player that is \<open>STOPPED\<close>, has no manifest and was not disposed of,
  \<open>setMaxVideoBitrate\<close> and \<open>setMaxAudioBitrate\<close> complete and hand the value to the ABR
  manager, and the next \<open>loadVideo\<close> builds its stream on the manager so updated;
  \<open>setVideoBitrate\<close> and \<open>setAudioBitrate\<close> throw "player: no manifest loaded" and change
  nothing.
\<close>

theorem C5_setters_while_stopped:
  assumes "state this = Some PLAYER_STOPPED"
      and "manifest this = None"
      and "notDisposed this"
      and "abrManager this = Some manager"
  shows "setMaxVideoBitrate A btr this
           = Inr (this\<lparr> abrManager := Some (Adaptive_setVideoMaxBitrate A btr manager) \<rparr>) \<and>
         setMaxAudioBitrate A btr this
           = Inr (this\<lparr> abrManager := Some (Adaptive_setAudioMaxBitrate A btr manager) \<rparr>) \<and>
         (\<exists>q. and_then (setMaxVideoBitrate A btr this) (loadVideo (Inr options)) = Inr q \<and>
              Stream_create options (Some (Adaptive_setVideoMaxBitrate A btr manager))
                \<in> set (emitted this q)) \<and>
         (\<exists>q. and_then (setMaxAudioBitrate A btr this) (loadVideo (Inr options)) = Inr q \<and>
              Stream_create options (Some (Adaptive_setAudioMaxBitrate A btr manager))
                \<in> set (emitted this q)) \<and>
         setVideoBitrate A btr this
           = Inl (AssertionError ''player: no manifest loaded'', this) \<and>
         setAudioBitrate A btr this
           = Inl (AssertionError ''player: no manifest loaded'', this)"
proof (intro conjI)
  show v: "setMaxVideoBitrate A btr this
           = Inr (this\<lparr> abrManager := Some (Adaptive_setVideoMaxBitrate A btr manager) \<rparr>)"
    using assms(4) by (simp add: setMaxVideoBitrate_def setter_on_manager)
  show a: "setMaxAudioBitrate A btr this
           = Inr (this\<lparr> abrManager := Some (Adaptive_setAudioMaxBitrate A btr manager) \<rparr>)"
    using assms(4) by (simp add: setMaxAudioBitrate_def setter_on_manager)
  have live: "notDisposed (this\<lparr> abrManager := Some m \<rparr>)"
       "state (this\<lparr> abrManager := Some m \<rparr>) = Some PLAYER_STOPPED" for m
    using assms by (simp_all add: notDisposed_def)
  show "\<exists>q. and_then (setMaxVideoBitrate A btr this) (loadVideo (Inr options)) = Inr q \<and>
              Stream_create options (Some (Adaptive_setVideoMaxBitrate A btr manager))
                \<in> set (emitted this q)"
    unfolding v by (simp add: and_then_def loadVideo_when_stopped [OF live] emitted_def)
  show "\<exists>q. and_then (setMaxAudioBitrate A btr this) (loadVideo (Inr options)) = Inr q \<and>
              Stream_create options (Some (Adaptive_setAudioMaxBitrate A btr manager))
                \<in> set (emitted this q)"
    unfolding a by (simp add: and_then_def loadVideo_when_stopped [OF live] emitted_def)
  show "setVideoBitrate A btr this = Inl (AssertionError ''player: no manifest loaded'', this)"
    using assms(2) by (simp add: setVideoBitrate_def assertManifest_def and_then_def)
  show "setAudioBitrate A btr this = Inl (AssertionError ''player: no manifest loaded'', this)"
    using assms(2) by (simp add: setAudioBitrate_def assertManifest_def and_then_def)
qed

theorem C5_setters_while_stopped_witness:
  "state new_player = Some PLAYER_STOPPED \<and> manifest new_player = None \<and>
   notDisposed new_player \<and>
   setMaxVideoBitrate spec_Adaptive 3000000 new_player
     = Inr (new_player\<lparr> abrManager := Some \<lparr> manualVideoBitrate = 0, manualAudioBitrate = 0,
                  maxVideoBitrate = 3000000, maxAudioBitrate = 128000 \<rparr> \<rparr>) \<and>
   setVideoBitrate spec_Adaptive 3000000 new_player
     = Inl (AssertionError ''player: no manifest loaded'', new_player)"
proof -
  have s: "state new_player = Some PLAYER_STOPPED" and m: "manifest new_player = None"
    by (simp_all add: new_player_stopped)
  from C5_setters_while_stopped [OF s m new_player_notDisposed new_player_manager,
      of spec_Adaptive 3000000 some_options]
  show ?thesis
    using s m new_player_notDisposed by (simp add: spec_Adaptive_def)
qed

subsection \<open>A fatal error, and the load after it\<close>

lemma onStreamError_result:
  assumes "notDisposed this"
  shows "\<exists>p. onStreamError error this = Inr p \<and> notDisposed p \<and>
             state p = Some PLAYER_STOPPED \<and> manifest p = None \<and> fatalError p = Some error \<and>
             triggered ''error'' (emitted this p) = [Error_value error]"
  using assms
  by (auto simp: onStreamError_def forwardToStream_def notDisposed_def emitted_def
      player_defs Let_def)

text \<open>
  On every player that was not disposed of, the handler of fatal errors completes, leaves
  the state \<open>STOPPED\<close> and the error in \<open>getError()\<close>, and triggers \<open>error\<close> once with it. A
  \<open>loadVideo\<close> that follows completes in the state \<open>LOADING\<close>, and \<open>getError()\<close> still
  returns the error: the \<open>stop()\<close> it starts with finds the state \<open>STOPPED\<close> and resets
  nothing.
\<close>

lemma error_then_load:
  assumes "notDisposed this"
  shows "\<exists>p q. onStreamError error this = Inr p \<and>
               state p = Some PLAYER_STOPPED \<and>
               getError p = Some error \<and>
               triggered ''error'' (emitted this p) = [Error_value error] \<and>
               loadVideo (Inr options) p = Inr q \<and>
               state q = Some PLAYER_LOADING \<and>
               getError q = Some error"
proof -
  from onStreamError_result [OF assms, of error]
  obtain p where p: "onStreamError error this = Inr p" "notDisposed p"
      "state p = Some PLAYER_STOPPED" "fatalError p = Some error"
      "triggered ''error'' (emitted this p) = [Error_value error]"
    by blast
  from loadVideo_when_stopped [OF p(2) p(3), of options] p
  show ?thesis by (simp add: getError_def)
qed

text \<open>
  C7 says that the load after a fatal error resets the stored error to \<open>null\<close>. On a new
  player, a first \<open>loadVideo\<close>, then a fatal error of the stream, then a second \<open>loadVideo\<close>
  all complete, the player is \<open>LOADING\<close> the second content, and \<open>getError()\<close> returns the
  error of the first.
\<close>

theorem C7_error_kept_by_next_load:
  "\<exists>q. and_then (and_then (loadVideo (Inr some_options) new_player)
                   (onStreamError fatal_error))
         (loadVideo (Inr some_options)) = Inr q \<and>
       state q = Some PLAYER_LOADING \<and>
       getError q = Some fatal_error"
proof -
  have live: "notDisposed loading_player" by (simp add: loading_player_notDisposed)
  from error_then_load [OF live, of fatal_error some_options]
  show ?thesis by (auto simp: first_load and_then_def)
qed

subsection \<open>What is sent on the legacy bus\<close>

lemma onBufferNext_trace:
  "trace (onBufferNext bufferType adapt rep this) =
     trace this
     @ (if bufferType = ''video'' \<and> recordedEvents this ''videoBitrate'' \<noteq> Some (bitrateOf rep)
        then [Trigger ''videoBitrateChange'' (Bitrate (bitrateOf rep))] else [])
     @ (if bufferType = ''audio'' \<and> recordedEvents this ''audioBitrate'' \<noteq> Some (bitrateOf rep)
        then [Trigger ''audioBitrateChange'' (Bitrate (bitrateOf rep))] else [])"
  by (simp add: onBufferNext_def recordState_def Let_def player_defs)

lemma onBufferNext_recorded:
  "recordedEvents (onBufferNext bufferType adapt rep this) =
     (if bufferType = ''video'' then (recordedEvents this)(''videoBitrate'' \<mapsto> bitrateOf rep)
      else if bufferType = ''audio'' then (recordedEvents this)(''audioBitrate'' \<mapsto> bitrateOf rep)
      else recordedEvents this)"
  by (auto simp: onBufferNext_def recordState_def Let_def player_defs fun_eq_iff)

lemma onBufferNext_stream:
  "stream (onBufferNext bufferType adapt rep this) = stream this"
  by (simp add: onBufferNext_def recordState_def Let_def player_defs)

text \<open>
  The \<open>switch\<close> of \<open>_onStreamNext\<close> completes on every object of the stream, sends nothing
  on \<open>_stream$\<close> and leaves the field as it is.
\<close>

lemma handled_by_switch:
  assumes live: "stream this \<noteq> None"
  shows "\<exists>p effs. (case streamInfos of
          Buffer_infos bufferType adapt rep \<Rightarrow> Inr (onBufferNext bufferType adapt rep this)
        | Manifest_infos m lm \<Rightarrow> onManifestNext m lm this
        | ManifestUpdate_infos m \<Rightarrow> Inr (onManifestUpdateNext m this)
        | Pipeline_infos bufferType seg segmentData \<Rightarrow>
            (let p = trigger ''progress'' (Segment_value seg) this in
             if bufferType = ''image''
             then Inr (emit (ImageTrack_next (Some segmentData))
                        (trigger ''imageTrackUpdate'' (Image_track segmentData)
                           (p\<lparr> currentImagePlaylist := Some segmentData \<rparr>)))
             else Inr p)
        | Other_infos type \<Rightarrow> Inr this) = Inr p
      \<and> stream p \<noteq> None \<and> trace p = trace this @ effs \<and> forwarded effs = []"
proof (cases streamInfos)
  case (Buffer_infos bufferType adapt rep)
  with live show ?thesis
    by (simp add: onBufferNext_trace onBufferNext_stream)
next
  case (Manifest_infos m lm)
  with live show ?thesis
    by (simp add: onManifestNext_def addLanguageSubscriptions_def player_defs)
next
  case (ManifestUpdate_infos m)
  with live show ?thesis
    by (simp add: onManifestUpdateNext_def player_defs)
next
  case (Pipeline_infos bufferType seg segmentData)
  with live show ?thesis
    by (simp add: player_defs Let_def)
next
  case (Other_infos type)
  with live show ?thesis by simp
qed

lemma onStreamNext_twice:
  assumes "stream this \<noteq> None"
  shows "\<exists>p. onStreamNext streamInfos this = Inr p \<and>
             forwarded (emitted this p) = [Infos streamInfos, Infos streamInfos]"
proof -
  from handled_by_switch [OF assms, of streamInfos]
  obtain p effs where p: "onStreamNext streamInfos this = forwardToStream (Infos streamInfos) p"
      "stream p \<noteq> None" "trace p = trace this @ effs" "forwarded effs = []"
    unfolding onStreamNext_def by (auto simp: and_then_def)
  then show ?thesis
    by (simp add: forwardToStream_twice emitted_def forwarded_append)
qed

lemma onErrorStreamNext_twice:
  assumes "stream this \<noteq> None"
  shows "\<exists>p. onErrorStreamNext error this = Inr p \<and>
             forwarded (emitted this p) = [Warning_message error, Warning_message error]"
  using assms
  by (simp add: onErrorStreamNext_def forwardToStream_twice emitted_def player_defs)

lemma onStreamError_twice:
  assumes "stream this \<noteq> None" and "clearLoaded this \<noteq> None"
  shows "\<exists>p. onStreamError error this = Inr p \<and>
             forwarded (emitted this p) = [Error_message error, Error_message error]"
  using assms
  by (auto simp: onStreamError_def forwardToStream_twice emitted_def player_defs Let_def)

lemma onStreamComplete_twice:
  assumes "stream this \<noteq> None" and "clearLoaded this \<noteq> None"
  shows "\<exists>p. onStreamComplete this = Inr p \<and>
             forwarded (emitted this p) = [Ended_message, Ended_message]"
  using assms
  by (auto simp: onStreamComplete_def forwardToStream_twice emitted_def player_defs Let_def)

text \<open>
  \<open>dispose\<close>, when it completes, leaves \<open>_stream$\<close> and \<open>_clearLoaded$\<close> both \<open>null\<close>;
  when it throws, and in every other method, thrown or not, both fields are what they
  were.
\<close>

lemma dispose_nulls_both:
  "dispose this = Inr p \<Longrightarrow> stream p = None \<and> clearLoaded p = None"
  by (auto simp: dispose_def and_then_def Let_def split: sum.splits if_splits)

lemma stop_keeps:
  "stream (outcome_player (stop this)) = stream this \<and>
   clearLoaded (outcome_player (stop this)) = clearLoaded this"
  by (simp add: outcome_player_def stop_def player_defs Let_def split: option.splits)

lemma dispose_thrown_keeps:
  "dispose this = Inl (e, p) \<Longrightarrow> stream p = stream this \<and> clearLoaded p = clearLoaded this"
  using stop_keeps [of this]
  by (auto simp: dispose_def and_then_def Let_def emit_def outcome_player_def
      split: sum.splits if_splits)

lemma onStreamNext_keeps:
  "stream (outcome_player (onStreamNext streamInfos this)) = stream this \<and>
   clearLoaded (outcome_player (onStreamNext streamInfos this)) = clearLoaded this"
  by (cases streamInfos)
     (simp_all add: outcome_player_def onStreamNext_def and_then_def forwardToStream_def
        onBufferNext_def recordState_def onManifestNext_def addLanguageSubscriptions_def
        onManifestUpdateNext_def player_defs Let_def split: option.splits)

lemma handlers_keep:
  "stream (outcome_player (onErrorStreamNext error this)) = stream this \<and>
   clearLoaded (outcome_player (onErrorStreamNext error this)) = clearLoaded this"
  "stream (outcome_player (onStreamError error this)) = stream this \<and>
   clearLoaded (outcome_player (onStreamError error this)) = clearLoaded this"
  "stream (outcome_player (onStreamComplete this)) = stream this \<and>
   clearLoaded (outcome_player (onStreamComplete this)) = clearLoaded this"
  by (simp_all add: outcome_player_def onErrorStreamNext_def onStreamError_def
        onStreamComplete_def forwardToStream_def player_defs Let_def split: option.splits)

lemma loadVideo_keeps:
  "stream (outcome_player (loadVideo parsed this)) = stream this \<and>
   clearLoaded (outcome_player (loadVideo parsed this)) = clearLoaded this"
  by (simp add: outcome_player_def loadVideo_def stop_def and_then_def triggerTimeChange_def
        player_defs Let_def split: option.splits sum.splits)

text \<open>
  C9: while \<open>_stream$\<close> is not \<open>null\<close>, each of the four handlers (an object of the stream,
  a warning, a fatal error, the completion) completes and sends its message on \<open>_stream$\<close>
  exactly twice. The handlers of the fatal error and of the completion send on
  \<open>_clearLoaded$\<close> before, so that field is not \<open>null\<close> either: the two fields are
  \<open>null\<close> together, by the lemmas above.
\<close>

theorem C9_forwarded_twice:
  assumes "stream this \<noteq> None" and "clearLoaded this \<noteq> None"
  shows "(\<exists>p. onStreamNext streamInfos this = Inr p \<and>
             forwarded (emitted this p) = [Infos streamInfos, Infos streamInfos]) \<and>
         (\<exists>p. onErrorStreamNext error this = Inr p \<and>
             forwarded (emitted this p) = [Warning_message error, Warning_message error]) \<and>
         (\<exists>p. onStreamError error this = Inr p \<and>
             forwarded (emitted this p) = [Error_message error, Error_message error]) \<and>
         (\<exists>p. onStreamComplete this = Inr p \<and>
             forwarded (emitted this p) = [Ended_message, Ended_message])"
  using assms onStreamNext_twice onErrorStreamNext_twice onStreamError_twice
    onStreamComplete_twice by blast

theorem C9_forwarded_twice_witness:
  "stream loading_player \<noteq> None \<and> clearLoaded loading_player \<noteq> None \<and>
   (\<exists>p. onStreamNext (Other_infos ''loaded'') loading_player = Inr p \<and>
        forwarded (emitted loading_player p)
          = [Infos (Other_infos ''loaded''), Infos (Other_infos ''loaded'')]) \<and>
   (\<exists>p. onStreamError fatal_error loading_player = Inr p \<and>
        forwarded (emitted loading_player p)
          = [Error_message fatal_error, Error_message fatal_error])"
proof -
  have s: "stream loading_player \<noteq> None" and c: "clearLoaded loading_player \<noteq> None"
    using loading_player_notDisposed by (simp_all add: notDisposed_def)
  from C9_forwarded_twice [OF s c, of "Other_infos ''loaded''" fatal_error] s c
  show ?thesis by blast
qed

subsection \<open>Bitrate change events\<close>

lemma onBufferEvents_trace:
  "\<exists>effs. trace (onBufferEvents evs this) = trace this @ effs"
proof (induction evs arbitrary: this)
  case Nil
  show ?case by simp
next
  case (Cons ev evs)
  obtain bufferType adapt rep where ev: "ev = (bufferType, adapt, rep)"
    by (cases ev)
  from Cons [of "onBufferNext bufferType adapt rep this"]
  show ?case by (auto simp: ev onBufferNext_trace)
qed

text \<open>
  One buffer event, for the video and for the audio buffer alike: the change event is
  triggered when the event is for that buffer and its bitrate is not the recorded one, and
  the bitrate is the recorded one afterwards.
\<close>

lemma step_changes:
  assumes "(bt, ty) \<in> {(''video'', ''videoBitrate''), (''audio'', ''audioBitrate'')}"
  shows "triggered (ty @ ''Change'') (emitted this (onBufferNext bufferType adapt rep this))
           = (if bufferType = bt \<and> recordedEvents this ty \<noteq> Some (bitrateOf rep)
              then [Bitrate (bitrateOf rep)] else [])"
    and "recordedEvents (onBufferNext bufferType adapt rep this) ty
           = (if bufferType = bt then Some (bitrateOf rep) else recordedEvents this ty)"
  using assms by (auto simp: emitted_def onBufferNext_trace onBufferNext_recorded)

text \<open>
  Over a list of buffer events, the values of a change event differ from one to the next,
  and the first of them differs from the value recorded before the list.
\<close>

lemma changes_of_run:
  assumes pair: "(bt, ty) \<in> {(''video'', ''videoBitrate''), (''audio'', ''audioBitrate'')}"
  shows "distinct_adj (triggered (ty @ ''Change'') (emitted this (onBufferEvents evs this))) \<and>
         (\<forall>v. triggered (ty @ ''Change'') (emitted this (onBufferEvents evs this)) \<noteq> [] \<and>
              hd (triggered (ty @ ''Change'') (emitted this (onBufferEvents evs this))) = Bitrate v
              \<longrightarrow> recordedEvents this ty \<noteq> Some v)"
proof (induction evs arbitrary: this)
  case Nil
  show ?case by (simp add: emitted_def)
next
  case (Cons ev evs)
  obtain bufferType adapt rep where ev: "ev = (bufferType, adapt, rep)"
    by (cases ev)
  define p where "p = onBufferNext bufferType adapt rep this"
  define q where "q = onBufferEvents evs p"
  define first where "first = triggered (ty @ ''Change'') (emitted this p)"
  define rest where "rest = triggered (ty @ ''Change'') (emitted p q)"
  obtain effs where effs: "trace q = trace p @ effs"
    unfolding q_def using onBufferEvents_trace by blast
  define step where "step = emitted this p"
  have tp: "trace p = trace this @ step"
    unfolding step_def p_def by (simp add: emitted_def onBufferNext_trace)
  have "emitted this q = step @ emitted p q"
    using effs tp by (simp add: emitted_def)
  then have "emitted this q = emitted this p @ emitted p q"
    by (simp only: step_def)
  moreover have "onBufferEvents (ev # evs) this = q"
    by (simp add: ev p_def q_def)
  ultimately have whole:
    "triggered (ty @ ''Change'') (emitted this (onBufferEvents (ev # evs) this)) = first @ rest"
    by (simp only: first_def rest_def triggered_append)
  from Cons [of p] have ih: "distinct_adj rest"
    "\<And>v. rest \<noteq> [] \<Longrightarrow> hd rest = Bitrate v \<Longrightarrow> recordedEvents p ty \<noteq> Some v"
    unfolding rest_def q_def by blast+
  have first: "first = (if bufferType = bt \<and> recordedEvents this ty \<noteq> Some (bitrateOf rep)
              then [Bitrate (bitrateOf rep)] else [])"
    unfolding first_def p_def by (rule step_changes(1) [OF pair])
  have recorded: "recordedEvents p ty
           = (if bufferType = bt then Some (bitrateOf rep) else recordedEvents this ty)"
    unfolding p_def by (rule step_changes(2) [OF pair])
  show ?case
  proof (cases "bufferType = bt \<and> recordedEvents this ty \<noteq> Some (bitrateOf rep)")
    case True
    then have st: "first = [Bitrate (bitrateOf rep)]"
      by (simp add: first)
    from True have now: "recordedEvents p ty = Some (bitrateOf rep)"
      by (simp add: recorded)
    have "rest = [] \<or> Bitrate (bitrateOf rep) \<noteq> hd rest"
    proof (cases "rest = []")
      case False
      show ?thesis
      proof (rule disjI2, rule notI)
        assume "Bitrate (bitrateOf rep) = hd rest"
        with ih(2) [OF False, of "bitrateOf rep"] now show False by simp
      qed
    qed simp
    with ih(1) True show ?thesis
      unfolding whole st by (auto simp: distinct_adj_Cons)
  next
    case False
    then have st: "first = []"
      by (simp add: first)
    from False have same: "recordedEvents p ty = recordedEvents this ty"
      by (auto simp: recorded)
    from ih show ?thesis
      unfolding whole st same by auto
  qed
qed

text \<open>
  The same over the objects of the stream, of any type, handled by \<open>_onStreamNext\<close>: the
  send on \<open>_stream$\<close> triggers nothing and records nothing, and of the cases of the
  \<open>switch\<close> only "buffer" touches the recorded bitrates.
\<close>

lemma forwardToStream_trace:
  "\<exists>effs. trace (outcome_player (forwardToStream msg p)) = trace p @ effs \<and>
          triggered evt effs = [] \<and>
          recordedEvents (outcome_player (forwardToStream msg p)) = recordedEvents p"
  by (simp add: forwardToStream_def outcome_player_def emit_def Let_def)

lemma switch_step:
  assumes pair: "(bt, ty) \<in> {(''video'', ''videoBitrate''), (''audio'', ''audioBitrate'')}"
  shows "\<exists>effs. trace (outcome_player (onStreamNext streamInfos this)) = trace this @ effs \<and>
          triggered (ty @ ''Change'') effs =
            (case bufferBitrate bt streamInfos of
               None \<Rightarrow> []
             | Some v \<Rightarrow> if recordedEvents this ty \<noteq> Some v then [Bitrate v] else []) \<and>
          recordedEvents (outcome_player (onStreamNext streamInfos this)) ty =
            (case bufferBitrate bt streamInfos of
               None \<Rightarrow> recordedEvents this ty
             | Some v \<Rightarrow> Some v)"
proof (cases streamInfos)
  case (Buffer_infos bufferType adapt rep)
  from forwardToStream_trace
    [of "Infos streamInfos" "onBufferNext bufferType adapt rep this" "ty @ ''Change''"]
  obtain effs where effs:
    "trace (outcome_player (forwardToStream (Infos streamInfos)
        (onBufferNext bufferType adapt rep this)))
       = trace (onBufferNext bufferType adapt rep this) @ effs"
    "triggered (ty @ ''Change'') effs = []"
    "recordedEvents (outcome_player (forwardToStream (Infos streamInfos)
        (onBufferNext bufferType adapt rep this)))
       = recordedEvents (onBufferNext bufferType adapt rep this)"
    by blast
  have run: "onStreamNext streamInfos this
      = forwardToStream (Infos streamInfos) (onBufferNext bufferType adapt rep this)"
    by (simp add: onStreamNext_def Buffer_infos and_then_def)
  have bring: "bufferBitrate bt streamInfos
      = (if bufferType = bt then Some (bitrateOf rep) else None)"
    by (simp add: bufferBitrate_def Buffer_infos)
  have t: "trace (outcome_player (onStreamNext streamInfos this))
      = trace this @ (emitted this (onBufferNext bufferType adapt rep this) @ effs)"
    unfolding run effs(1) by (simp add: emitted_def onBufferNext_trace)
  have tr: "triggered (ty @ ''Change'')
        (emitted this (onBufferNext bufferType adapt rep this) @ effs)
      = (case bufferBitrate bt streamInfos of
               None \<Rightarrow> []
             | Some v \<Rightarrow> if recordedEvents this ty \<noteq> Some v then [Bitrate v] else [])"
    by (simp add: triggered_append effs(2) step_changes(1) [OF pair] bring)
  have rec: "recordedEvents (outcome_player (onStreamNext streamInfos this)) ty
      = (case bufferBitrate bt streamInfos of
               None \<Rightarrow> recordedEvents this ty
             | Some v \<Rightarrow> Some v)"
    unfolding run effs(3) by (simp add: step_changes(2) [OF pair] bring)
  from t tr rec show ?thesis by blast
next
  case (Manifest_infos m lm)
  with pair show ?thesis
    by (auto simp: onStreamNext_def and_then_def onManifestNext_def
        addLanguageSubscriptions_def forwardToStream_def outcome_player_def bufferBitrate_def
        player_defs Let_def)
next
  case (ManifestUpdate_infos m)
  with pair show ?thesis
    by (auto simp: onStreamNext_def and_then_def onManifestUpdateNext_def
        forwardToStream_def outcome_player_def bufferBitrate_def player_defs Let_def)
next
  case (Pipeline_infos bufferType seg segmentData)
  with pair show ?thesis
    by (auto simp: onStreamNext_def and_then_def
        forwardToStream_def outcome_player_def bufferBitrate_def player_defs Let_def)
next
  case (Other_infos type)
  with pair show ?thesis
    by (auto simp: onStreamNext_def and_then_def
        forwardToStream_def outcome_player_def bufferBitrate_def player_defs Let_def)
qed

lemma onStreamEvents_trace:
  "\<exists>effs. trace (outcome_player (onStreamEvents infos this)) = trace this @ effs"
proof (induction infos arbitrary: this)
  case Nil
  show ?case by (simp add: outcome_player_def)
next
  case (Cons streamInfos rest)
  obtain effs where effs:
    "trace (outcome_player (onStreamNext streamInfos this)) = trace this @ effs"
    using switch_step [of "''video''" "''videoBitrate''" streamInfos this] by auto
  show ?case
  proof (cases "onStreamNext streamInfos this")
    case (Inl thrown)
    with effs show ?thesis by (simp add: and_then_def)
  next
    case (Inr p)
    with effs have "trace p = trace this @ effs" by (simp add: outcome_player_def)
    with Cons [of p] Inr show ?thesis by (auto simp: and_then_def)
  qed
qed

lemma stream_changes_of_run:
  assumes pair: "(bt, ty) \<in> {(''video'', ''videoBitrate''), (''audio'', ''audioBitrate'')}"
  shows "distinct_adj (triggered (ty @ ''Change'')
            (emitted this (outcome_player (onStreamEvents infos this)))) \<and>
         (\<forall>v. triggered (ty @ ''Change'')
                (emitted this (outcome_player (onStreamEvents infos this))) \<noteq> [] \<and>
              hd (triggered (ty @ ''Change'')
                (emitted this (outcome_player (onStreamEvents infos this)))) = Bitrate v
              \<longrightarrow> recordedEvents this ty \<noteq> Some v)"
proof (induction infos arbitrary: this)
  case Nil
  show ?case by (simp add: emitted_def outcome_player_def)
next
  case (Cons streamInfos infos)
  define p where "p = outcome_player (onStreamNext streamInfos this)"
  define q where "q = outcome_player (onStreamEvents (streamInfos # infos) this)"
  obtain step where step: "trace p = trace this @ step"
      "triggered (ty @ ''Change'') step =
            (case bufferBitrate bt streamInfos of
               None \<Rightarrow> []
             | Some v \<Rightarrow> if recordedEvents this ty \<noteq> Some v then [Bitrate v] else [])"
      "recordedEvents p ty =
            (case bufferBitrate bt streamInfos of
               None \<Rightarrow> recordedEvents this ty
             | Some v \<Rightarrow> Some v)"
    unfolding p_def using switch_step [OF pair, of streamInfos this] by blast
  define first where "first = triggered (ty @ ''Change'') step"
  define rest where "rest = triggered (ty @ ''Change'') (emitted p q)"
  have ih: "distinct_adj rest \<and>
      (\<forall>v. rest \<noteq> [] \<and> hd rest = Bitrate v \<longrightarrow> recordedEvents p ty \<noteq> Some v)"
  proof (cases "onStreamNext streamInfos this")
    case (Inl thrown)
    then have "q = p" by (simp add: q_def p_def and_then_def)
    then show ?thesis by (simp add: rest_def emitted_def)
  next
    case (Inr p')
    then have "p' = p" by (simp add: p_def outcome_player_def)
    with Inr have "q = outcome_player (onStreamEvents infos p)"
      by (simp add: q_def and_then_def)
    with Cons [of p] show ?thesis by (simp add: rest_def)
  qed
  obtain effs where effs: "trace q = trace p @ effs"
  proof (cases "onStreamNext streamInfos this")
    case (Inl thrown)
    then have "q = p" by (simp add: q_def p_def and_then_def)
    then have "trace q = trace p @ []" by simp
    then show ?thesis by (rule that)
  next
    case (Inr p')
    then have "p' = p" by (simp add: p_def outcome_player_def)
    with Inr have "q = outcome_player (onStreamEvents infos p)"
      by (simp add: q_def and_then_def)
    with onStreamEvents_trace [of infos p] that show ?thesis by auto
  qed
  have "emitted this q = step @ emitted p q"
    using effs step(1) by (simp add: emitted_def)
  then have whole: "triggered (ty @ ''Change'') (emitted this q) = first @ rest"
    by (simp add: first_def rest_def triggered_append)
  have goal: "distinct_adj (first @ rest) \<and>
      (\<forall>v. first @ rest \<noteq> [] \<and> hd (first @ rest) = Bitrate v
           \<longrightarrow> recordedEvents this ty \<noteq> Some v)"
  proof (cases "bufferBitrate bt streamInfos")
    case None
    with step have "first = []" "recordedEvents p ty = recordedEvents this ty"
      by (simp_all add: first_def)
    with ih show ?thesis by simp
  next
    case (Some b)
    show ?thesis
    proof (cases "recordedEvents this ty = Some b")
      case True
      with Some step have "first = []" "recordedEvents p ty = recordedEvents this ty"
        by (simp_all add: first_def)
      with ih show ?thesis by simp
    next
      case False
      with Some step have st: "first = [Bitrate b]" and now: "recordedEvents p ty = Some b"
        by (simp_all add: first_def)
      have "rest = [] \<or> Bitrate b \<noteq> hd rest"
      proof (cases "rest = []")
        case nonempty: False
        show ?thesis
        proof (rule disjI2, rule notI)
          assume "Bitrate b = hd rest"
          with ih nonempty have "recordedEvents p ty \<noteq> Some b" by metis
          with now show False by simp
        qed
      qed simp
      with ih False show ?thesis
        unfolding st by (auto simp: distinct_adj_Cons)
    qed
  qed
  then show ?case unfolding q_def [symmetric] whole .
qed

text \<open>
  C10, as stated: over every sequence of buffer events delivered to the player, two
  \<open>videoBitrateChange\<close> events that follow one another carry different values. A first
  \<open>loadVideo\<close>, a buffer event for a video representation of 1000 bps, a second
  \<open>loadVideo\<close> and the same buffer event again trigger \<open>videoBitrateChange\<close> twice, with
  1000 both times: the \<open>stop()\<close> that opens the second \<open>loadVideo\<close> finds the player
  \<open>LOADING\<close> and empties \<open>_recordedEvents\<close>.
\<close>

theorem C10_across_loads_counterexample:
  "triggered ''videoBitrateChange''
     (trace (outcome_player
        (and_then
           (and_then
              (and_then (loadVideo (Inr some_options) new_player) (onStreamNext video_1000))
              (loadVideo (Inr some_options)))
           (onStreamNext video_1000))))
     = [Bitrate 1000, Bitrate 1000]"
  by (simp add: first_load and_then_def loading_player_eq new_player_def Player_new_def
      video_1000_def onStreamNext_def onBufferNext_def recordState_def bitrateOf_def
      forwardToStream_def loadVideo_def stop_def triggerTimeChange_def outcome_player_def
      player_defs Let_def)

text \<open>
  C10, amended: a buffer event triggers \<open>videoBitrateChange\<close> only when it is for the
  video buffer and its bitrate is not the value recorded before, and then once, with that
  bitrate; the same holds of \<open>audioBitrateChange\<close> and the audio buffer. So over every
  list of buffer events, and over every list of objects of the stream of any type, from
  every player, with no reset of the content state in between (no \<open>stop()\<close> or
  \<open>loadVideo\<close> of a player that is not \<open>STOPPED\<close>, no fatal error, no completion), two
  values of \<open>videoBitrateChange\<close> that follow one another differ, and two of
  \<open>audioBitrateChange\<close> too.
\<close>

theorem C10_bitrate_changes:
  "triggered ''videoBitrateChange'' (emitted this (onBufferNext bufferType adapt rep this))
     = (if bufferType = ''video'' \<and> recordedEvents this ''videoBitrate'' \<noteq> Some (bitrateOf rep)
        then [Bitrate (bitrateOf rep)] else []) \<and>
   triggered ''audioBitrateChange'' (emitted this (onBufferNext bufferType adapt rep this))
     = (if bufferType = ''audio'' \<and> recordedEvents this ''audioBitrate'' \<noteq> Some (bitrateOf rep)
        then [Bitrate (bitrateOf rep)] else []) \<and>
   distinct_adj (triggered ''videoBitrateChange'' (emitted this (onBufferEvents evs this))) \<and>
   distinct_adj (triggered ''audioBitrateChange'' (emitted this (onBufferEvents evs this))) \<and>
   distinct_adj (triggered ''videoBitrateChange''
     (emitted this (outcome_player (onStreamEvents infos this)))) \<and>
   distinct_adj (triggered ''audioBitrateChange''
     (emitted this (outcome_player (onStreamEvents infos this))))"
  using changes_of_run [of "''video''" "''videoBitrate''" this evs]
    changes_of_run [of "''audio''" "''audioBitrate''" this evs]
    stream_changes_of_run [of "''video''" "''videoBitrate''" this infos]
    stream_changes_of_run [of "''audio''" "''audioBitrate''" this infos]
    step_changes(1) [of "''video''" "''videoBitrate''" this bufferType adapt rep]
    step_changes(1) [of "''audio''" "''audioBitrate''" this bufferType adapt rep]
  by simp

text \<open>
  Video events at 1000, 1000, 2000, no bitrate and 1000 again trigger four changes: 1000,
  2000, -1 and 1000.
\<close>

theorem C10_bitrate_changes_witness:
  "triggered ''videoBitrateChange''
     (emitted new_player
        (onBufferEvents [video_at 1000, video_at 1000, video_at 2000, video_at 0, video_at 1000]
           new_player))
     = [Bitrate 1000, Bitrate 2000, Bitrate (- 1), Bitrate 1000] \<and>
   distinct_adj (triggered ''videoBitrateChange''
     (emitted new_player
        (onBufferEvents [video_at 1000, video_at 1000, video_at 2000, video_at 0, video_at 1000]
           new_player)))"
proof -
  have "triggered ''videoBitrateChange''
     (emitted new_player
        (onBufferEvents [video_at 1000, video_at 1000, video_at 2000, video_at 0, video_at 1000]
           new_player))
     = [Bitrate 1000, Bitrate 2000, Bitrate (- 1), Bitrate 1000]"
    by (simp add: video_at_def emitted_def onBufferNext_def recordState_def bitrateOf_def
        new_player_def Player_new_def player_defs Let_def)
  with C10_bitrate_changes [of new_player "''video''" None None
      "[video_at 1000, video_at 1000, video_at 2000, video_at 0, video_at 1000]" "[]"]
  show ?thesis by simp
qed

end
